theory Spec2Isabelle
  imports Complex_Main
begin

section \<open>Discrete surfaces with elastic metrics: data model\<close>

text \<open>
  Embedding of \<^verbatim>\<open>geomstats/geometry/discrete_surfaces.py\<close>.

  A surface (point) and a tangent vector are arrays of shape \<^verbatim>\<open>[n_vertices, 3]\<close>: a list of
  rows, each row a triple. The triangulation \<^verbatim>\<open>faces\<close> is an array of shape
  \<^verbatim>\<open>[n_faces, 3]\<close> of vertex indices, taken as natural numbers. Arrays are unbatched
  (no leading batch dimensions). Array entries are exact real numbers: the embedding
  describes the arithmetic the code performs, not its floating-point rounding. The area
  computations are given a second time over double-precision values, with rounding,
  infinities and NaN, in the section on double-precision values.

  Outcomes that are not a finite array are values of \<open>error\<close>: an index outside an array
  (\<open>IndexError\<close>), two arrays that cannot be broadcast together (\<open>ValueError\<close>), the
  inverse of a singular matrix (\<open>LinAlgError\<close>), and a division by zero, which the array
  backend answers with an infinity or a NaN (\<open>NonFinite\<close>).
\<close>

datatype error = IndexError | ValueError | LinAlgError | NonFinite

type_synonym vec2 = "real \<times> real"
type_synonym vec3 = "real \<times> real \<times> real"
type_synonym mat22 = "vec2 \<times> vec2"
type_synonym mat23 = "vec3 \<times> vec3"
type_synonym mat32 = "vec2 \<times> vec2 \<times> vec2"
type_synonym mat33 = "vec3 \<times> vec3 \<times> vec3"
type_synonym point = "vec3 list"
type_synonym face = "nat \<times> nat \<times> nat"
type_synonym triangle = "vec3 \<times> vec3 \<times> vec3"

definition bindE :: "error + 'a \<Rightarrow> ('a \<Rightarrow> error + 'b) \<Rightarrow> error + 'b" where
  "bindE r f = (case r of Inl e \<Rightarrow> Inl e | Inr x \<Rightarrow> f x)"

fun mapE :: "('a \<Rightarrow> error + 'b) \<Rightarrow> 'a list \<Rightarrow> error + 'b list" where
  "mapE f [] = Inr []"
| "mapE f (x # xs) = bindE (f x) (\<lambda>y. bindE (mapE f xs) (\<lambda>ys. Inr (y # ys)))"

subsection \<open>The array backend\<close>

text \<open>
  The operations of \<^verbatim>\<open>geomstats.backend\<close> that the module calls, by their mathematical
  meaning on the shapes at which the module calls them.
\<close>

fun vadd :: "vec3 \<Rightarrow> vec3 \<Rightarrow> vec3" where
  "vadd (a, b, c) (x, y, z) = (a + x, b + y, c + z)"

fun vsub :: "vec3 \<Rightarrow> vec3 \<Rightarrow> vec3" where
  "vsub (a, b, c) (x, y, z) = (a - x, b - y, c - z)"

fun vscale :: "real \<Rightarrow> vec3 \<Rightarrow> vec3" where
  "vscale k (x, y, z) = (k * x, k * y, k * z)"

fun vdiv :: "vec3 \<Rightarrow> real \<Rightarrow> vec3" where
  "vdiv (x, y, z) k = (x / k, y / k, z / k)"

fun dot :: "vec3 \<Rightarrow> vec3 \<Rightarrow> real" where
  "dot (a, b, c) (x, y, z) = a * x + b * y + c * z"

fun cross :: "vec3 \<Rightarrow> vec3 \<Rightarrow> vec3" where
  "cross (a, b, c) (x, y, z) = (b * z - c * y, c * x - a * z, a * y - b * x)"

definition linalg_norm :: "vec3 \<Rightarrow> real" where
  "linalg_norm v = sqrt (dot v v)"

definition clip_min :: "real \<Rightarrow> real \<Rightarrow> real" where
  "clip_min x lo = max x lo"

text \<open>
  Elementwise operations on two arrays broadcast a first dimension of size one, and raise
  when the sizes differ otherwise.
\<close>

definition broadcast2 :: "'a list \<Rightarrow> 'b list \<Rightarrow> error + ('a \<times> 'b) list" where
  "broadcast2 xs ys =
     (if length xs = length ys then Inr (zip xs ys)
      else if length xs = 1 then Inr (map (\<lambda>y. (hd xs, y)) ys)
      else if length ys = 1 then Inr (map (\<lambda>x. (x, hd ys)) xs)
      else Inl ValueError)"

definition add_points :: "point \<Rightarrow> point \<Rightarrow> error + point" where
  "add_points p q = bindE (broadcast2 p q) (\<lambda>pq. Inr (map (\<lambda>(x, y). vadd x y) pq))"

text \<open>
  \<^verbatim>\<open>scatter_add(input, dim=-1, index, src)\<close> adds \<open>src[i]\<close> to \<open>input[index[i]]\<close> for
  each position \<open>i\<close>, in order; an index outside \<open>input\<close> raises.
\<close>

definition scatter_add :: "real list \<Rightarrow> nat list \<Rightarrow> real list \<Rightarrow> error + real list" where
  "scatter_add input index src =
     (if list_all (\<lambda>i. i < length input) index
      then Inr (fold (\<lambda>(i, s) acc. acc[i := acc ! i + s]) (zip index src) input)
      else Inl IndexError)"

text \<open>Matrices of the shapes that occur, row by row.\<close>

fun transpose23 :: "mat23 \<Rightarrow> mat32" where
  "transpose23 ((a, b, c), (d, e, f)) = ((a, d), (b, e), (c, f))"

fun transpose32 :: "mat32 \<Rightarrow> mat23" where
  "transpose32 ((a, d), (b, e), (c, f)) = ((a, b, c), (d, e, f))"

fun matmul_23_32 :: "mat23 \<Rightarrow> mat32 \<Rightarrow> mat22" where
  "matmul_23_32 ((a, b, c), (d, e, f)) ((p, q), (r, s), (t, u)) =
     ((a * p + b * r + c * t, a * q + b * s + c * u),
      (d * p + e * r + f * t, d * q + e * s + f * u))"

fun matmul_32_22 :: "mat32 \<Rightarrow> mat22 \<Rightarrow> mat32" where
  "matmul_32_22 ((a, b), (c, d), (e, f)) ((p, q), (r, s)) =
     ((a * p + b * r, a * q + b * s),
      (c * p + d * r, c * q + d * s),
      (e * p + f * r, e * q + f * s))"

fun matmul_22_22 :: "mat22 \<Rightarrow> mat22 \<Rightarrow> mat22" where
  "matmul_22_22 ((a, b), (c, d)) ((p, q), (r, s)) =
     ((a * p + b * r, a * q + b * s), (c * p + d * r, c * q + d * s))"

fun matmul_22_23 :: "mat22 \<Rightarrow> mat23 \<Rightarrow> mat23" where
  "matmul_22_23 ((a, b), (c, d)) ((p, q, r), (s, t, u)) =
     ((a * p + b * s, a * q + b * t, a * r + b * u),
      (c * p + d * s, c * q + d * t, c * r + d * u))"

fun matmul_32_23 :: "mat32 \<Rightarrow> mat23 \<Rightarrow> mat33" where
  "matmul_32_23 ((a, b), (c, d), (e, f)) ((p, q, r), (s, t, u)) =
     ((a * p + b * s, a * q + b * t, a * r + b * u),
      (c * p + d * s, c * q + d * t, c * r + d * u),
      (e * p + f * s, e * q + f * t, e * r + f * u))"

fun sub22 :: "mat22 \<Rightarrow> mat22 \<Rightarrow> mat22" where
  "sub22 ((a, b), (c, d)) ((p, q), (r, s)) = ((a - p, b - q), (c - r, d - s))"

fun sub32 :: "mat32 \<Rightarrow> mat32 \<Rightarrow> mat32" where
  "sub32 ((a, b), (c, d), (e, f)) ((p, q), (r, s), (t, u)) =
     ((a - p, b - q), (c - r, d - s), (e - t, f - u))"

fun trace22 :: "mat22 \<Rightarrow> real" where
  "trace22 ((a, b), (c, d)) = a + d"

fun trace33 :: "mat33 \<Rightarrow> real" where
  "trace33 ((a, b, c), (d, e, f), (g, h, i)) = a + e + i"

fun linalg_det :: "mat22 \<Rightarrow> real" where
  "linalg_det ((a, b), (c, d)) = a * d - b * c"

fun linalg_inv :: "mat22 \<Rightarrow> error + mat22" where
  "linalg_inv ((a, b), (c, d)) =
     (if a * d - b * c = 0 then Inl LinAlgError
      else Inr ((d / (a * d - b * c), - b / (a * d - b * c)),
                (- c / (a * d - b * c), a / (a * d - b * c))))"

section \<open>DiscreteSurfaces\<close>

text \<open>\<^verbatim>\<open>_vertices\<close>: the three corners of every face, \<^verbatim>\<open>point[faces]\<close>.\<close>

definition vertices :: "face list \<Rightarrow> point \<Rightarrow> error + triangle list" where
  "vertices faces point =
     (if list_all (\<lambda>(i, j, k). i < length point \<and> j < length point \<and> k < length point) faces
      then Inr (map (\<lambda>(i, j, k). (point ! i, point ! j, point ! k)) faces)
      else Inl IndexError)"

text \<open>
  The product under the square root of Heron's formula, as \<^verbatim>\<open>_triangle_areas\<close> computes
  it from the three edge lengths.
\<close>

definition heron_product :: "triangle \<Rightarrow> real" where
  "heron_product = (\<lambda>(vertex_0, vertex_1, vertex_2).
     let len_edge_12 = linalg_norm (vsub vertex_1 vertex_2);
         len_edge_02 = linalg_norm (vsub vertex_0 vertex_2);
         len_edge_01 = linalg_norm (vsub vertex_0 vertex_1);
         half_perimeter = 0.5 * (len_edge_12 + len_edge_02 + len_edge_01)
     in half_perimeter
          * (half_perimeter - len_edge_12)
          * (half_perimeter - len_edge_02)
          * (half_perimeter - len_edge_01))"

text \<open>
  \<^verbatim>\<open>_triangle_areas\<close>: for every face the square root of the product, clipped from below
  at 1e-6.
\<close>

definition triangle_area :: "triangle \<Rightarrow> real" where
  "triangle_area t = sqrt (clip_min (heron_product t) (1 / 1000000))"

definition triangle_areas :: "face list \<Rightarrow> point \<Rightarrow> error + real list" where
  "triangle_areas faces point =
     bindE (vertices faces point) (\<lambda>vs. Inr (map triangle_area vs))"

text \<open>
  \<^verbatim>\<open>vertex_areas\<close>. The index array is \<^verbatim>\<open>faces\<close> flattened row by row; the value array
  is the array of areas broadcast to shape \<^verbatim>\<open>(3, n_faces)\<close> and flattened, which is the
  array of areas three times in a row.
\<close>

definition vertex_areas :: "face list \<Rightarrow> point \<Rightarrow> error + real list" where
  "vertex_areas faces point =
     (let n_vertices = length point
      in bindE (triangle_areas faces point) (\<lambda>area.
           let id_vertices = concat (map (\<lambda>(i, j, k). [i, j, k]) faces);
               val = concat (replicate 3 area);
               incident_areas = replicate n_vertices 0
           in bindE (scatter_add incident_areas id_vertices val) (\<lambda>incident_areas.
                Inr (map (\<lambda>x. 2 * x / 3) incident_areas))))"

text \<open>
  \<^verbatim>\<open>normals\<close>, \<^verbatim>\<open>surface_one_forms\<close> and the surface metric matrices, each given by
  its value on one face.
\<close>

definition normal :: "triangle \<Rightarrow> vec3" where
  "normal = (\<lambda>(vertex_0, vertex_1, vertex_2).
     vscale 0.5 (cross (vsub vertex_1 vertex_0) (vsub vertex_2 vertex_0)))"

definition normals :: "face list \<Rightarrow> point \<Rightarrow> error + vec3 list" where
  "normals faces point = bindE (vertices faces point) (\<lambda>vs. Inr (map normal vs))"

definition one_form :: "triangle \<Rightarrow> mat23" where
  "one_form = (\<lambda>(vertex_0, vertex_1, vertex_2).
     (vsub vertex_1 vertex_0, vsub vertex_2 vertex_0))"

definition surface_one_forms :: "face list \<Rightarrow> point \<Rightarrow> error + mat23 list" where
  "surface_one_forms faces point =
     bindE (vertices faces point) (\<lambda>vs. Inr (map one_form vs))"

definition surface_metric_matrices_from_one_forms :: "mat23 list \<Rightarrow> mat22 list" where
  "surface_metric_matrices_from_one_forms one_forms =
     map (\<lambda>m. matmul_23_32 m (transpose23 m)) one_forms"

definition surface_metric_matrices :: "face list \<Rightarrow> point \<Rightarrow> error + mat22 list" where
  "surface_metric_matrices faces point =
     bindE (surface_one_forms faces point) (\<lambda>one_forms.
       Inr (surface_metric_matrices_from_one_forms one_forms))"

text \<open>
  \<^verbatim>\<open>face_areas\<close>. The determinant of a surface metric matrix is never negative (lemma
  \<open>det_nonneg\<close> below), so the square root is taken of a non-negative number.
\<close>

definition face_areas :: "face list \<Rightarrow> point \<Rightarrow> error + real list" where
  "face_areas faces point =
     bindE (surface_metric_matrices faces point) (\<lambda>surface_metrics_bp.
       Inr (map (\<lambda>g. sqrt (linalg_det g)) surface_metrics_bp))"

text \<open>
  The area that \<^verbatim>\<open>laplacian\<close> computes for a face (its own copy of Heron's formula with
  the same floor), and the three halved cotangent weights of the face, each a quotient by
  that area.
\<close>

definition laplacian_area :: "triangle \<Rightarrow> real" where
  "laplacian_area = (\<lambda>(vertex_0, vertex_1, vertex_2).
     let len_edge_12 = linalg_norm (vsub vertex_1 vertex_2);
         len_edge_02 = linalg_norm (vsub vertex_0 vertex_2);
         len_edge_01 = linalg_norm (vsub vertex_0 vertex_1);
         half_perimeter = 0.5 * (len_edge_12 + len_edge_02 + len_edge_01)
     in sqrt (clip_min
          (half_perimeter
             * (half_perimeter - len_edge_12)
             * (half_perimeter - len_edge_02)
             * (half_perimeter - len_edge_01))
          (1 / 1000000)))"

definition cot_weights :: "triangle \<Rightarrow> real list" where
  "cot_weights = (\<lambda>(vertex_0, vertex_1, vertex_2).
     let len_edge_12 = linalg_norm (vsub vertex_1 vertex_2);
         len_edge_02 = linalg_norm (vsub vertex_0 vertex_2);
         len_edge_01 = linalg_norm (vsub vertex_0 vertex_1);
         area = laplacian_area (vertex_0, vertex_1, vertex_2);
         sq_len_edge_12 = len_edge_12 * len_edge_12;
         sq_len_edge_02 = len_edge_02 * len_edge_02;
         sq_len_edge_01 = len_edge_01 * len_edge_01;
         cot_12 = (sq_len_edge_02 + sq_len_edge_01 - sq_len_edge_12) / area;
         cot_02 = (sq_len_edge_12 + sq_len_edge_01 - sq_len_edge_02) / area;
         cot_01 = (sq_len_edge_12 + sq_len_edge_02 - sq_len_edge_01) / area
     in [cot_12 / 2, cot_02 / 2, cot_01 / 2])"

text \<open>
  The operator \<^verbatim>\<open>_laplacian\<close> that \<^verbatim>\<open>laplacian\<close> returns, with the values it closes
  over as arguments: the number of vertices of the base point, the flattened cotangent
  weights, and the two rows of \<^verbatim>\<open>id_vertices\<close>. Reading the tangent vector at the
  indices raises when an index is outside it. \<open>laplacian_values\<close> is the array
  \<^verbatim>\<open>values\<close>: the weighted edge differences, which are then scatter-added coordinate by
  coordinate.
\<close>

definition laplacian_values :: "real list \<Rightarrow> nat list \<Rightarrow> nat list \<Rightarrow> point \<Rightarrow> vec3 list" where
  "laplacian_values cot_flatten id_vertices_0 id_vertices_1 tangent_vec =
     (let tangent_vec_diff =
            map (\<lambda>(i, j). vsub (tangent_vec ! i) (tangent_vec ! j))
              (zip id_vertices_0 id_vertices_1)
      in map (\<lambda>(c, d). vscale c d) (zip cot_flatten tangent_vec_diff))"

definition laplacian_closure ::
  "nat \<Rightarrow> real list \<Rightarrow> nat list \<Rightarrow> nat list \<Rightarrow> point \<Rightarrow> error + point" where
  "laplacian_closure n_vertices cot_flatten id_vertices_0 id_vertices_1 tangent_vec =
     (if list_all (\<lambda>i. i < length tangent_vec) id_vertices_0
         \<and> list_all (\<lambda>i. i < length tangent_vec) id_vertices_1
      then
        let values = laplacian_values cot_flatten id_vertices_0 id_vertices_1 tangent_vec;
            zeros = replicate n_vertices 0
        in bindE (scatter_add zeros id_vertices_1 (map fst values)) (\<lambda>xs.
           bindE (scatter_add zeros id_vertices_1 (map (\<lambda>v. fst (snd v)) values)) (\<lambda>ys.
           bindE (scatter_add zeros id_vertices_1 (map (\<lambda>v. snd (snd v)) values)) (\<lambda>zs.
             Inr (zip xs (zip ys zs)))))
      else Inl IndexError)"

definition laplacian :: "face list \<Rightarrow> point \<Rightarrow> error + (point \<Rightarrow> error + point)" where
  "laplacian faces point =
     (let n_vertices = length point
      in bindE (vertices faces point) (\<lambda>vs.
           let cot_flatten = concat (map cot_weights vs);
               id_vertices_120 = concat (map (\<lambda>(i, j, k). [j, k, i]) faces);
               id_vertices_201 = concat (map (\<lambda>(i, j, k). [k, i, j]) faces)
           in Inr (laplacian_closure n_vertices cot_flatten id_vertices_120 id_vertices_201)))"

section \<open>ElasticMetric\<close>

record ElasticMetric =
  a0 :: real
  a1 :: real
  b1 :: real
  c1 :: real
  d1 :: real
  a2 :: real

definition inner_product_a0 :: "ElasticMetric \<Rightarrow> point \<Rightarrow> point \<Rightarrow> real list \<Rightarrow> error + real" where
  "inner_product_a0 m tangent_vec_a tangent_vec_b vertex_areas_bp =
     bindE (broadcast2 tangent_vec_a tangent_vec_b) (\<lambda>ab.
     bindE (broadcast2 vertex_areas_bp (map (\<lambda>(x, y). dot x y) ab)) (\<lambda>w.
       Inr (a0 m * sum_list (map (\<lambda>(ar, e). ar * e) w))))"

text \<open>
  The first-order terms take per-face arrays that all have \<^verbatim>\<open>n_faces\<close> rows where
  \<^verbatim>\<open>inner_product\<close> calls them.
\<close>

definition inner_product_a1 :: "ElasticMetric \<Rightarrow> mat22 list \<Rightarrow> mat22 list \<Rightarrow> real list \<Rightarrow> real" where
  "inner_product_a1 m ginvdga ginvdgb areas_bp =
     a1 m * sum_list (map (\<lambda>((ga, gb), ar). trace22 (matmul_22_22 ga gb) * ar)
                        (zip (zip ginvdga ginvdgb) areas_bp))"

definition inner_product_b1 :: "ElasticMetric \<Rightarrow> mat22 list \<Rightarrow> mat22 list \<Rightarrow> real list \<Rightarrow> real" where
  "inner_product_b1 m ginvdga ginvdgb areas_bp =
     b1 m * sum_list (map (\<lambda>((ga, gb), ar). trace22 ga * trace22 gb * ar)
                        (zip (zip ginvdga ginvdgb) areas_bp))"

definition inner_product_c1 ::
  "ElasticMetric \<Rightarrow> face list \<Rightarrow> point \<Rightarrow> point \<Rightarrow> vec3 list \<Rightarrow> real list \<Rightarrow> error + real" where
  "inner_product_c1 m faces point_a point_b normals_bp areas_bp =
     bindE (normals faces point_a) (\<lambda>normals_a.
       let dna = map (\<lambda>(x, y). vsub x y) (zip normals_a normals_bp)
       in bindE (normals faces point_b) (\<lambda>normals_b.
            let dnb = map (\<lambda>(x, y). vsub x y) (zip normals_b normals_bp)
            in Inr (c1 m * sum_list (map (\<lambda>((x, y), ar). dot x y * ar)
                                      (zip (zip dna dnb) areas_bp)))))"

text \<open>The matrix \<^verbatim>\<open>xa_0\<close> (and \<^verbatim>\<open>xb_0\<close>) of \<^verbatim>\<open>_inner_product_d1\<close> for one face.\<close>

definition d1_component :: "mat23 \<Rightarrow> mat23 \<Rightarrow> mat22 \<Rightarrow> mat32" where
  "d1_component one_forms_a one_forms_bp inv_surface_metrics_bp =
     (let one_forms_bp_t = transpose23 one_forms_bp;
          one_forms_a_t = transpose23 one_forms_a;
          xa = sub32 one_forms_a_t one_forms_bp_t
      in matmul_32_22
           (matmul_32_22 one_forms_bp_t inv_surface_metrics_bp)
           (sub22 (matmul_23_32 (transpose32 xa) one_forms_bp_t)
                  (matmul_23_32 one_forms_bp xa)))"

definition d1_face :: "mat23 \<Rightarrow> mat23 \<Rightarrow> mat23 \<Rightarrow> mat22 \<Rightarrow> real" where
  "d1_face one_forms_a one_forms_b one_forms_bp inv_surface_metrics_bp =
     (let xa_0 = d1_component one_forms_a one_forms_bp inv_surface_metrics_bp;
          xb_0 = d1_component one_forms_b one_forms_bp inv_surface_metrics_bp
      in trace33 (matmul_32_23 xa_0
           (matmul_22_23 inv_surface_metrics_bp (transpose32 xb_0))))"

definition inner_product_d1 ::
  "ElasticMetric \<Rightarrow> mat23 list \<Rightarrow> mat23 list \<Rightarrow> mat23 list \<Rightarrow> real list \<Rightarrow> mat22 list \<Rightarrow> real" where
  "inner_product_d1 m one_forms_a one_forms_b one_forms_bp areas_bp inv_surface_metrics_bp =
     d1 m * sum_list (map (\<lambda>(ofa, ofb, ofbp, ar, ginv). d1_face ofa ofb ofbp ginv * ar)
              (zip one_forms_a (zip one_forms_b (zip one_forms_bp
                 (zip areas_bp inv_surface_metrics_bp)))))"

definition inner_product_a2 ::
  "ElasticMetric \<Rightarrow> face list \<Rightarrow> point \<Rightarrow> point \<Rightarrow> point \<Rightarrow> real list \<Rightarrow> error + real" where
  "inner_product_a2 m faces tangent_vec_a tangent_vec_b base_point vertex_areas_bp =
     bindE (laplacian faces base_point) (\<lambda>laplacian_at_base_point.
     bindE (laplacian_at_base_point tangent_vec_a) (\<lambda>la.
     bindE (laplacian_at_base_point tangent_vec_b) (\<lambda>lb.
       if list_ex (\<lambda>ar. ar = 0) vertex_areas_bp then Inl NonFinite
       else Inr (a2 m * sum_list (map (\<lambda>((x, y), ar). dot x y / ar)
                                    (zip (zip la lb) vertex_areas_bp))))))"

text \<open>
  \<^verbatim>\<open>inner_product\<close>, in two blocks: the block guarded by \<^verbatim>\<open>a0 > 0 or a2 > 0\<close>, which
  yields the a0 and a2 terms, and the block guarded by
  \<^verbatim>\<open>a1 > 0 or b1 > 0 or c1 > 0 or b1 > 0\<close>, which yields the a1, b1, c1 and d1 terms.
  A term that is not computed keeps its initial value 0.
\<close>

definition vertex_terms ::
  "ElasticMetric \<Rightarrow> face list \<Rightarrow> point \<Rightarrow> point \<Rightarrow> point \<Rightarrow> error + real \<times> real" where
  "vertex_terms m faces tangent_vec_a tangent_vec_b base_point =
     (if a0 m > 0 \<or> a2 m > 0 then
        bindE (vertex_areas faces base_point) (\<lambda>vertex_areas_bp.
        bindE (if a0 m > 0
               then inner_product_a0 m tangent_vec_a tangent_vec_b vertex_areas_bp
               else Inr 0) (\<lambda>inner_prod_a0.
        bindE (if a2 m > 0
               then inner_product_a2 m faces tangent_vec_a tangent_vec_b base_point
                      vertex_areas_bp
               else Inr 0) (\<lambda>inner_prod_a2.
          Inr (inner_prod_a0, inner_prod_a2))))
      else Inr (0, 0))"

definition metric_terms ::
  "ElasticMetric \<Rightarrow> mat23 list \<Rightarrow> mat23 list \<Rightarrow> mat23 list \<Rightarrow> mat22 list \<Rightarrow> real list
     \<Rightarrow> mat22 list \<Rightarrow> real \<times> real \<times> real" where
  "metric_terms m one_forms_a one_forms_b one_forms_bp surface_metrics_bp areas_bp ginv_bp =
     (let inner_prod_d1 =
            (if d1 m > 0
             then inner_product_d1 m one_forms_a one_forms_b one_forms_bp areas_bp ginv_bp
             else 0)
      in if b1 m > 0 \<or> a1 m > 0 then
           let dga = map (\<lambda>(ofa, g). sub22 (matmul_23_32 ofa (transpose23 ofa)) g)
                       (zip one_forms_a surface_metrics_bp);
               dgb = map (\<lambda>(ofb, g). sub22 (matmul_23_32 ofb (transpose23 ofb)) g)
                       (zip one_forms_b surface_metrics_bp);
               ginvdga = map (\<lambda>(gi, dg). matmul_22_22 gi dg) (zip ginv_bp dga);
               ginvdgb = map (\<lambda>(gi, dg). matmul_22_22 gi dg) (zip ginv_bp dgb)
           in ((if a1 m > 0 then inner_product_a1 m ginvdga ginvdgb areas_bp else 0),
               (if b1 m > 0 then inner_product_b1 m ginvdga ginvdgb areas_bp else 0),
               inner_prod_d1)
         else (0, 0, inner_prod_d1))"

definition face_terms ::
  "ElasticMetric \<Rightarrow> face list \<Rightarrow> point \<Rightarrow> point \<Rightarrow> point
     \<Rightarrow> error + real \<times> real \<times> real \<times> real" where
  "face_terms m faces tangent_vec_a tangent_vec_b base_point =
     (if a1 m > 0 \<or> b1 m > 0 \<or> c1 m > 0 \<or> b1 m > 0 then
        bindE (surface_one_forms faces base_point) (\<lambda>one_forms_bp.
          let surface_metrics_bp = surface_metric_matrices_from_one_forms one_forms_bp;
              areas_bp = map (\<lambda>g. sqrt (linalg_det g)) surface_metrics_bp
          in bindE (add_points base_point tangent_vec_a) (\<lambda>point_a.
             bindE (add_points base_point tangent_vec_b) (\<lambda>point_b.
             bindE (if c1 m > 0
                    then bindE (normals faces base_point) (\<lambda>normals_bp.
                           inner_product_c1 m faces point_a point_b normals_bp areas_bp)
                    else Inr 0) (\<lambda>inner_prod_c1.
             bindE (if d1 m > 0 \<or> b1 m > 0 \<or> a1 m > 0 then
                      bindE (mapE linalg_inv surface_metrics_bp) (\<lambda>ginv_bp.
                      bindE (surface_one_forms faces point_a) (\<lambda>one_forms_a.
                      bindE (surface_one_forms faces point_b) (\<lambda>one_forms_b.
                        Inr (metric_terms m one_forms_a one_forms_b one_forms_bp
                               surface_metrics_bp areas_bp ginv_bp))))
                    else Inr (0, 0, 0)) (\<lambda>(inner_prod_a1, inner_prod_b1, inner_prod_d1).
               Inr (inner_prod_a1, inner_prod_b1, inner_prod_c1, inner_prod_d1))))))
      else Inr (0, 0, 0, 0))"

definition inner_product ::
  "ElasticMetric \<Rightarrow> face list \<Rightarrow> point \<Rightarrow> point \<Rightarrow> point \<Rightarrow> error + real" where
  "inner_product m faces tangent_vec_a tangent_vec_b base_point =
     bindE (vertex_terms m faces tangent_vec_a tangent_vec_b base_point)
       (\<lambda>(inner_prod_a0, inner_prod_a2).
     bindE (face_terms m faces tangent_vec_a tangent_vec_b base_point)
       (\<lambda>(inner_prod_a1, inner_prod_b1, inner_prod_c1, inner_prod_d1).
       Inr (inner_prod_a0 + inner_prod_a1 + inner_prod_a2
              + inner_prod_b1 + inner_prod_c1 + inner_prod_d1)))"

section \<open>DiscreteSurfacesExpSolver\<close>

text \<open>
  \<^verbatim>\<open>_stepforward\<close> hands the two last frames to an external minimizer and returns what
  the minimizer found (or lets its exception through); it is a parameter here. The loop
  \<^verbatim>\<open>for _ in range(2, n_steps)\<close> runs \<open>nat (n_steps - 2)\<close> times and appends one frame
  each time. \<^verbatim>\<open>stack\<close> raises unless all frames have the same shape.
\<close>

fun geodesic_loop ::
  "(point \<Rightarrow> point \<Rightarrow> error + point) \<Rightarrow> nat \<Rightarrow> point list \<Rightarrow> error + point list" where
  "geodesic_loop stepforward 0 geod = Inr geod"
| "geodesic_loop stepforward (Suc k) geod =
     bindE (stepforward (geod ! (length geod - 2)) (geod ! (length geod - 1)))
       (\<lambda>next_next_point. geodesic_loop stepforward k (geod @ [next_next_point]))"

definition stack :: "point list \<Rightarrow> error + point list" where
  "stack geod =
     (if list_all (\<lambda>frame. length frame = length (hd geod)) geod
      then Inr geod else Inl ValueError)"

definition discrete_geodesic_ivp_single ::
  "(point \<Rightarrow> point \<Rightarrow> error + point) \<Rightarrow> int \<Rightarrow> point \<Rightarrow> point \<Rightarrow> error + point list" where
  "discrete_geodesic_ivp_single stepforward n_steps tangent_vec base_point =
     (if n_steps - 1 = 0 then Inl NonFinite
      else
        bindE (add_points base_point
                 (map (\<lambda>v. vdiv v (real_of_int (n_steps - 1))) tangent_vec)) (\<lambda>next_point.
        bindE (geodesic_loop stepforward (nat (n_steps - 2)) [base_point, next_point])
          stack))"

text \<open>
  For unbatched arguments of the same number of dimensions \<^verbatim>\<open>discrete_geodesic_ivp\<close>
  is \<^verbatim>\<open>_discrete_geodesic_ivp_single\<close>.
\<close>

definition discrete_geodesic_ivp ::
  "(point \<Rightarrow> point \<Rightarrow> error + point) \<Rightarrow> int \<Rightarrow> point \<Rightarrow> point \<Rightarrow> error + point list" where
  "discrete_geodesic_ivp stepforward n_steps tangent_vec base_point =
     discrete_geodesic_ivp_single stepforward n_steps tangent_vec base_point"

text \<open>
  The initial guess that \<^verbatim>\<open>_stepforward\<close> hands to the minimizer,
  \<^verbatim>\<open>2 * (next_point - current_point) + current_point\<close>; as a step function it stands
  for a minimizer that returns its initial guess.
\<close>

definition initial_next_next_point :: "point \<Rightarrow> point \<Rightarrow> error + point" where
  "initial_next_next_point current_point next_point =
     bindE (broadcast2 next_point current_point) (\<lambda>d.
       add_points (map (\<lambda>(n, c). vscale 2 (vsub n c)) d) current_point)"

section \<open>Double-precision values\<close>

text \<open>
  The area computations once more, over the values a double can hold: a finite number, an
  infinity, or NaN. \<open>rnd\<close> is the rounding of an exact result to a representable number;
  a rounded result beyond the largest double becomes an infinity. The operations follow
  IEEE 754 on the special values (signed zeros apart): \<open>inf - inf\<close> and \<open>0 * inf\<close> are
  NaN, NaN goes through every operation, the square root of a negative number is NaN, and
  \<^verbatim>\<open>clip(min=lo)\<close> leaves NaN as it is.
\<close>

datatype fl = Fin real | PInf | NInf | NaN

type_synonym fvec3 = "fl \<times> fl \<times> fl"

definition max_float :: real where
  "max_float = (2 - 1 / 2 ^ 52) * 2 ^ 1023"

definition fl_round :: "(real \<Rightarrow> real) \<Rightarrow> real \<Rightarrow> fl" where
  "fl_round rnd r =
     (let y = rnd r
      in if max_float < y then PInf else if y < - max_float then NInf else Fin y)"

fun fneg :: "fl \<Rightarrow> fl" where
  "fneg (Fin x) = Fin (- x)"
| "fneg PInf = NInf"
| "fneg NInf = PInf"
| "fneg NaN = NaN"

fun fadd :: "(real \<Rightarrow> real) \<Rightarrow> fl \<Rightarrow> fl \<Rightarrow> fl" where
  "fadd rnd (Fin x) (Fin y) = fl_round rnd (x + y)"
| "fadd rnd NaN b = NaN"
| "fadd rnd a NaN = NaN"
| "fadd rnd PInf NInf = NaN"
| "fadd rnd NInf PInf = NaN"
| "fadd rnd PInf b = PInf"
| "fadd rnd a PInf = PInf"
| "fadd rnd NInf b = NInf"
| "fadd rnd a NInf = NInf"

definition fsub :: "(real \<Rightarrow> real) \<Rightarrow> fl \<Rightarrow> fl \<Rightarrow> fl" where
  "fsub rnd a b = fadd rnd a (fneg b)"

fun fmul :: "(real \<Rightarrow> real) \<Rightarrow> fl \<Rightarrow> fl \<Rightarrow> fl" where
  "fmul rnd (Fin x) (Fin y) = fl_round rnd (x * y)"
| "fmul rnd NaN b = NaN"
| "fmul rnd a NaN = NaN"
| "fmul rnd PInf (Fin y) = (if y = 0 then NaN else if 0 < y then PInf else NInf)"
| "fmul rnd NInf (Fin y) = (if y = 0 then NaN else if 0 < y then NInf else PInf)"
| "fmul rnd (Fin x) PInf = (if x = 0 then NaN else if 0 < x then PInf else NInf)"
| "fmul rnd (Fin x) NInf = (if x = 0 then NaN else if 0 < x then NInf else PInf)"
| "fmul rnd PInf PInf = PInf"
| "fmul rnd PInf NInf = NInf"
| "fmul rnd NInf PInf = NInf"
| "fmul rnd NInf NInf = PInf"

fun fsqrt :: "(real \<Rightarrow> real) \<Rightarrow> fl \<Rightarrow> fl" where
  "fsqrt rnd (Fin x) = (if x < 0 then NaN else fl_round rnd (sqrt x))"
| "fsqrt rnd PInf = PInf"
| "fsqrt rnd NInf = NaN"
| "fsqrt rnd NaN = NaN"

fun fclip_min :: "fl \<Rightarrow> real \<Rightarrow> fl" where
  "fclip_min (Fin x) lo = Fin (max x lo)"
| "fclip_min PInf lo = PInf"
| "fclip_min NInf lo = Fin lo"
| "fclip_min NaN lo = NaN"

fun to_fl :: "vec3 \<Rightarrow> fvec3" where
  "to_fl (x, y, z) = (Fin x, Fin y, Fin z)"

fun fvsub :: "(real \<Rightarrow> real) \<Rightarrow> fvec3 \<Rightarrow> fvec3 \<Rightarrow> fvec3" where
  "fvsub rnd (a, b, c) (x, y, z) = (fsub rnd a x, fsub rnd b y, fsub rnd c z)"

text \<open>
  \<^verbatim>\<open>linalg.norm(x, axis=-1)\<close>: the square root of the sum of the squared entries.
\<close>

fun flinalg_norm :: "(real \<Rightarrow> real) \<Rightarrow> fvec3 \<Rightarrow> fl" where
  "flinalg_norm rnd (x, y, z) =
     fsqrt rnd (fadd rnd (fadd rnd (fmul rnd x x) (fmul rnd y y)) (fmul rnd z z))"

text \<open>
  \<^verbatim>\<open>_triangle_areas\<close> in doubles, for a face whose corners have finite coordinates. The
  literals \<^verbatim>\<open>0.5\<close> and \<^verbatim>\<open>1e-6\<close> are the doubles \<open>1 / 2\<close> and \<open>rnd (1 / 1000000)\<close>.
\<close>

definition heron_product_fl :: "(real \<Rightarrow> real) \<Rightarrow> triangle \<Rightarrow> fl" where
  "heron_product_fl rnd = (\<lambda>(vertex_0, vertex_1, vertex_2).
     let len_edge_12 = flinalg_norm rnd (fvsub rnd (to_fl vertex_1) (to_fl vertex_2));
         len_edge_02 = flinalg_norm rnd (fvsub rnd (to_fl vertex_0) (to_fl vertex_2));
         len_edge_01 = flinalg_norm rnd (fvsub rnd (to_fl vertex_0) (to_fl vertex_1));
         half_perimeter = fmul rnd (Fin (1 / 2))
           (fadd rnd (fadd rnd len_edge_12 len_edge_02) len_edge_01)
     in fmul rnd
          (fmul rnd
            (fmul rnd half_perimeter (fsub rnd half_perimeter len_edge_12))
            (fsub rnd half_perimeter len_edge_02))
          (fsub rnd half_perimeter len_edge_01))"

definition triangle_area_fl :: "(real \<Rightarrow> real) \<Rightarrow> triangle \<Rightarrow> fl" where
  "triangle_area_fl rnd t =
     fsqrt rnd (fclip_min (heron_product_fl rnd t) (rnd (1 / 1000000)))"

definition triangle_areas_fl :: "(real \<Rightarrow> real) \<Rightarrow> face list \<Rightarrow> point \<Rightarrow> error + fl list" where
  "triangle_areas_fl rnd faces point =
     bindE (vertices faces point) (\<lambda>vs. Inr (map (triangle_area_fl rnd) vs))"

text \<open>The area that \<^verbatim>\<open>laplacian\<close> computes for a face, in doubles.\<close>

definition laplacian_area_fl :: "(real \<Rightarrow> real) \<Rightarrow> triangle \<Rightarrow> fl" where
  "laplacian_area_fl rnd = (\<lambda>(vertex_0, vertex_1, vertex_2).
     let len_edge_12 = flinalg_norm rnd (fvsub rnd (to_fl vertex_1) (to_fl vertex_2));
         len_edge_02 = flinalg_norm rnd (fvsub rnd (to_fl vertex_0) (to_fl vertex_2));
         len_edge_01 = flinalg_norm rnd (fvsub rnd (to_fl vertex_0) (to_fl vertex_1));
         half_perimeter = fmul rnd (Fin (1 / 2))
           (fadd rnd (fadd rnd len_edge_12 len_edge_02) len_edge_01)
     in fsqrt rnd (fclip_min
          (fmul rnd
            (fmul rnd
              (fmul rnd half_perimeter (fsub rnd half_perimeter len_edge_12))
              (fsub rnd half_perimeter len_edge_02))
            (fsub rnd half_perimeter len_edge_01))
          (rnd (1 / 1000000))))"

text \<open>
  What the rounding of doubles satisfies and the proofs use: it is monotone, it keeps 0,
  it at most doubles the magnitude, and the double that \<^verbatim>\<open>sqrt(1e-6)\<close> evaluates to is
  positive. \<open>coords_within b v\<close> bounds the coordinates of a vertex.
\<close>

definition rounding :: "(real \<Rightarrow> real) \<Rightarrow> bool" where
  "rounding rnd \<longleftrightarrow>
     (\<forall>x y. x \<le> y \<longrightarrow> rnd x \<le> rnd y) \<and> rnd 0 = 0
     \<and> (\<forall>x. \<bar>rnd x\<bar> \<le> 2 * \<bar>x\<bar>) \<and> 0 < rnd (sqrt (rnd (1 / 1000000)))"

fun coords_within :: "real \<Rightarrow> vec3 \<Rightarrow> bool" where
  "coords_within b (x, y, z) = (\<bar>x\<bar> \<le> b \<and> \<bar>y\<bar> \<le> b \<and> \<bar>z\<bar> \<le> b)"

text \<open>A finite value of magnitude at most \<open>b\<close>, and one between 0 and \<open>b\<close>.\<close>

definition fin_abs :: "real \<Rightarrow> fl \<Rightarrow> bool" where
  "fin_abs b v = (\<exists>x. v = Fin x \<and> \<bar>x\<bar> \<le> b)"

definition fin_pos :: "real \<Rightarrow> fl \<Rightarrow> bool" where
  "fin_pos b v = (\<exists>x. v = Fin x \<and> 0 \<le> x \<and> x \<le> b)"

section \<open>Basic facts\<close>

lemma bindE_Inr [simp]: "bindE (Inr x) f = f x"
  by (simp add: bindE_def)

lemma bindE_Inl [simp]: "bindE (Inl e) f = Inl e"
  by (simp add: bindE_def)

lemma sqrt_floor: "sqrt (1 / 1000000) = 1 / 1000"
  by (rule real_sqrt_unique) (simp_all add: power2_eq_square)

lemma triangle_area_floor: "1 / 1000 \<le> triangle_area t"
  unfolding triangle_area_def clip_min_def sqrt_floor[symmetric]
  by (rule real_sqrt_le_mono) simp

lemma laplacian_area_eq: "laplacian_area t = triangle_area t"
  by (cases t) (simp add: laplacian_area_def triangle_area_def heron_product_def Let_def)

section \<open>The gates of the inner product\<close>

text \<open>
  C10. When none of the six weights is positive, no term is computed and
  \<^verbatim>\<open>inner_product\<close> returns the scalar 0, whatever the tangent vectors, the base point
  and the triangulation are; a negative weight behaves like a zero weight.
\<close>

theorem inner_product_no_positive_weight:
  assumes "a0 m \<le> 0" and "a1 m \<le> 0" and "b1 m \<le> 0"
    and "c1 m \<le> 0" and "d1 m \<le> 0" and "a2 m \<le> 0"
  shows "inner_product m faces tangent_vec_a tangent_vec_b base_point = Inr 0"
  using assms
  by (simp add: inner_product_def vertex_terms_def face_terms_def not_less[symmetric])

theorem inner_product_no_positive_weight_witness:
  "inner_product \<lparr>a0 = 0, a1 = - 1, b1 = 0, c1 = - 3, d1 = 0, a2 = - 1 / 2\<rparr>
     [(0, 1, 2)] [(1, 2, 3), (0, 0, 1), (4, 0, 0)] [(0, 1, 0), (2, 2, 2), (0, 0, 5)]
     [(0, 0, 0), (1, 0, 0), (0, 1, 0)] = Inr 0"
  using inner_product_no_positive_weight
    [of "\<lparr>a0 = 0, a1 = - 1, b1 = 0, c1 = - 3, d1 = 0, a2 = - 1 / 2\<rparr>"]
  by simp

text \<open>
  C1. The d1 term is missing from the guard of the block that computes it: the guard reads
  \<^verbatim>\<open>a1 > 0 or b1 > 0 or c1 > 0 or b1 > 0\<close>. With d1 = 1 and the other weights 0, on the
  right triangle with legs 1 and the tangent vector that rotates it in its plane, the
  d1 term that \<^verbatim>\<open>_inner_product_d1\<close> computes from the one-forms, areas and inverse
  metric of this input is 8, and \<^verbatim>\<open>inner_product\<close> returns 0. With a1 = 1 as well the
  block is entered and the d1 term is added: the result is 2 + 8, where 2 is the result for
  a1 = 1 alone.
\<close>

theorem inner_product_drops_d1:
  "inner_product \<lparr>a0 = 0, a1 = 0, b1 = 0, c1 = 0, d1 = 1, a2 = 0\<rparr> [(0, 1, 2)]
     [(0, 0, 0), (0, 1, 0), (- 1, 0, 0)] [(0, 0, 0), (0, 1, 0), (- 1, 0, 0)]
     [(0, 0, 0), (1, 0, 0), (0, 1, 0)] = Inr 0
   \<and> surface_one_forms [(0, 1, 2)] [(0, 0, 0), (1, 0, 0), (0, 1, 0)]
       = Inr [((1, 0, 0), (0, 1, 0))]
   \<and> add_points [(0, 0, 0), (1, 0, 0), (0, 1, 0)] [(0, 0, 0), (0, 1, 0), (- 1, 0, 0)]
       = Inr [(0, 0, 0), (1, 1, 0), (- 1, 1, 0)]
   \<and> surface_one_forms [(0, 1, 2)] [(0, 0, 0), (1, 1, 0), (- 1, 1, 0)]
       = Inr [((1, 1, 0), (- 1, 1, 0))]
   \<and> surface_metric_matrices_from_one_forms [((1, 0, 0), (0, 1, 0))] = [((1, 0), (0, 1))]
   \<and> mapE linalg_inv [((1, 0), (0, 1))] = Inr [((1, 0), (0, 1))]
   \<and> map (\<lambda>g. sqrt (linalg_det g)) [((1, 0), (0, 1))] = [1]
   \<and> inner_product_d1 \<lparr>a0 = 0, a1 = 0, b1 = 0, c1 = 0, d1 = 1, a2 = 0\<rparr>
       [((1, 1, 0), (- 1, 1, 0))] [((1, 1, 0), (- 1, 1, 0))] [((1, 0, 0), (0, 1, 0))]
       [1] [((1, 0), (0, 1))] = 8
   \<and> inner_product \<lparr>a0 = 0, a1 = 1, b1 = 0, c1 = 0, d1 = 0, a2 = 0\<rparr> [(0, 1, 2)]
     [(0, 0, 0), (0, 1, 0), (- 1, 0, 0)] [(0, 0, 0), (0, 1, 0), (- 1, 0, 0)]
     [(0, 0, 0), (1, 0, 0), (0, 1, 0)] = Inr 2
   \<and> inner_product \<lparr>a0 = 0, a1 = 1, b1 = 0, c1 = 0, d1 = 1, a2 = 0\<rparr> [(0, 1, 2)]
     [(0, 0, 0), (0, 1, 0), (- 1, 0, 0)] [(0, 0, 0), (0, 1, 0), (- 1, 0, 0)]
     [(0, 0, 0), (1, 0, 0), (0, 1, 0)] = Inr (2 + 8)"
  by (simp add: inner_product_def vertex_terms_def face_terms_def surface_one_forms_def
      vertices_def one_form_def add_points_def broadcast2_def
      surface_metric_matrices_from_one_forms_def inner_product_d1_def d1_face_def
      d1_component_def metric_terms_def inner_product_a1_def)

section \<open>The floor under Heron's square root\<close>

lemma max_float_big: "10 ^ 300 \<le> max_float"
  by (simp add: max_float_def)

lemma rounding_mono: "rounding rnd \<Longrightarrow> x \<le> y \<Longrightarrow> rnd x \<le> rnd y"
  by (simp add: rounding_def)

lemma rounding_nonneg: "rounding rnd \<Longrightarrow> 0 \<le> x \<Longrightarrow> 0 \<le> rnd x"
  using rounding_mono [of rnd 0 x] by (simp add: rounding_def)

lemma rounding_abs: "rounding rnd \<Longrightarrow> \<bar>x\<bar> \<le> b \<Longrightarrow> \<bar>rnd x\<bar> \<le> 2 * b"
proof -
  assume r: "rounding rnd" and b: "\<bar>x\<bar> \<le> b"
  have "\<bar>rnd x\<bar> \<le> 2 * \<bar>x\<bar>"
    using r by (simp add: rounding_def)
  then show ?thesis
    using b by simp
qed

lemma fl_round_fin_abs:
  assumes "rounding rnd" and "\<bar>r\<bar> \<le> b" and "2 * b \<le> c" and "c \<le> max_float"
  shows "fin_abs c (fl_round rnd r)"
proof -
  have "\<bar>rnd r\<bar> \<le> c"
    using rounding_abs [OF assms(1,2)] assms(3) by simp
  then show ?thesis
    using assms(4) by (auto simp: fl_round_def fin_abs_def Let_def)
qed

lemma fl_round_fin_pos:
  assumes "rounding rnd" and "0 \<le> r" and "r \<le> b" and "2 * b \<le> c" and "c \<le> max_float"
  shows "fin_pos c (fl_round rnd r)"
proof -
  have "\<bar>rnd r\<bar> \<le> c"
    using rounding_abs [OF assms(1), of r b] assms(2,3,4) by simp
  moreover have "0 \<le> rnd r"
    by (rule rounding_nonneg [OF assms(1,2)])
  ultimately show ?thesis
    using assms(5) by (auto simp: fl_round_def fin_pos_def Let_def)
qed

lemma fin_pos_abs: "fin_pos b v \<Longrightarrow> fin_abs b v"
  by (auto simp: fin_pos_def fin_abs_def)

lemma fsub_fin:
  assumes "rounding rnd" and "fin_abs p1 u" and "fin_abs p2 v"
    and "2 * (p1 + p2) \<le> c" and "c \<le> max_float"
  shows "fin_abs c (fsub rnd u v)"
proof -
  obtain x y where "u = Fin x" "\<bar>x\<bar> \<le> p1" "v = Fin y" "\<bar>y\<bar> \<le> p2"
    using assms(2,3) by (auto simp: fin_abs_def)
  then show ?thesis
    using fl_round_fin_abs [OF assms(1) _ assms(4,5), of "x + - y"]
    by (simp add: fsub_def)
qed

lemma fadd_pos:
  assumes "rounding rnd" and "fin_pos p1 u" and "fin_pos p2 v"
    and "2 * (p1 + p2) \<le> c" and "c \<le> max_float"
  shows "fin_pos c (fadd rnd u v)"
proof -
  obtain x y where "u = Fin x" "0 \<le> x" "x \<le> p1" "v = Fin y" "0 \<le> y" "y \<le> p2"
    using assms(2,3) by (auto simp: fin_pos_def)
  then show ?thesis
    using fl_round_fin_pos [OF assms(1) _ _ assms(4,5), of "x + y"]
    by simp
qed

lemma fmul_fin:
  assumes "rounding rnd" and "fin_abs p1 u" and "fin_abs p2 v"
    and "2 * (p1 * p2) \<le> c" and "c \<le> max_float"
  shows "fin_abs c (fmul rnd u v)"
proof -
  obtain x y where xy: "u = Fin x" "\<bar>x\<bar> \<le> p1" "v = Fin y" "\<bar>y\<bar> \<le> p2"
    using assms(2,3) by (auto simp: fin_abs_def)
  have "\<bar>x * y\<bar> \<le> p1 * p2"
    unfolding abs_mult using xy by (intro mult_mono) auto
  then show ?thesis
    using fl_round_fin_abs [OF assms(1) _ assms(4,5), of "x * y"] xy
    by simp
qed

lemma fmul_self_pos:
  assumes "rounding rnd" and "fin_abs b u" and "2 * (b * b) \<le> c" and "c \<le> max_float"
  shows "fin_pos c (fmul rnd u u)"
proof -
  obtain x where x: "u = Fin x" "\<bar>x\<bar> \<le> b"
    using assms(2) by (auto simp: fin_abs_def)
  have "x * x = \<bar>x\<bar> * \<bar>x\<bar>"
    by simp
  also have "\<dots> \<le> b * b"
    using x(2) by (intro mult_mono) auto
  finally have "x * x \<le> b * b" .
  then show ?thesis
    using fl_round_fin_pos [OF assms(1) _ _ assms(3,4), of "x * x"] x
    by simp
qed

lemma fmul_half_pos:
  assumes "rounding rnd" and "fin_pos b u" and "b \<le> c" and "c \<le> max_float"
  shows "fin_pos c (fmul rnd (Fin (1 / 2)) u)"
proof -
  obtain x where x: "u = Fin x" "0 \<le> x" "x \<le> b"
    using assms(2) by (auto simp: fin_pos_def)
  show ?thesis
    using fl_round_fin_pos [OF assms(1) _ _ _ assms(4), of "1 / 2 * x" "b / 2"] x assms(3)
    by simp
qed

lemma fsqrt_pos:
  assumes "rounding rnd" and "fin_pos (s * s) u" and "0 \<le> s" and "2 * s \<le> c"
    and "c \<le> max_float"
  shows "fin_pos c (fsqrt rnd u)"
proof -
  obtain x where x: "u = Fin x" "0 \<le> x" "x \<le> s * s"
    using assms(2) by (auto simp: fin_pos_def)
  have "sqrt x \<le> sqrt (s * s)"
    by (rule real_sqrt_le_mono) (rule x(3))
  then have "sqrt x \<le> s"
    using assms(3) by simp
  then show ?thesis
    using fl_round_fin_pos [OF assms(1) _ _ assms(4,5), of "sqrt x"] x
    by simp
qed

lemma le_max_float: "c \<le> 10 ^ 300 \<Longrightarrow> c \<le> max_float"
  using max_float_big by simp

lemma to_fl_fin:
  assumes "coords_within b v"
  shows "\<exists>x y z. to_fl v = (x, y, z) \<and> fin_abs b x \<and> fin_abs b y \<and> fin_abs b z"
  using assms by (cases v) (simp add: fin_abs_def)

lemma fvsub_fin:
  assumes r: "rounding rnd" and "coords_within (10 ^ 60) a" and "coords_within (10 ^ 60) b"
  shows "\<exists>x y z. fvsub rnd (to_fl a) (to_fl b) = (x, y, z)
           \<and> fin_abs (10 ^ 61) x \<and> fin_abs (10 ^ 61) y \<and> fin_abs (10 ^ 61) z"
proof -
  obtain x1 y1 z1 where a: "to_fl a = (x1, y1, z1)"
    "fin_abs (10 ^ 60) x1" "fin_abs (10 ^ 60) y1" "fin_abs (10 ^ 60) z1"
    using to_fl_fin [OF assms(2)] by blast
  obtain x2 y2 z2 where b: "to_fl b = (x2, y2, z2)"
    "fin_abs (10 ^ 60) x2" "fin_abs (10 ^ 60) y2" "fin_abs (10 ^ 60) z2"
    using to_fl_fin [OF assms(3)] by blast
  have d: "fin_abs (10 ^ 61) (fsub rnd u v)"
    if "fin_abs (10 ^ 60) u" "fin_abs (10 ^ 60) v" for u v
    by (rule fsub_fin [OF r that]) (simp_all add: le_max_float)
  show ?thesis
    unfolding a(1) b(1) fvsub.simps
    using d [OF a(2) b(2)] d [OF a(3) b(3)] d [OF a(4) b(4)] by blast
qed

lemma flinalg_norm_fin:
  assumes r: "rounding rnd"
    and "fin_abs (10 ^ 61) x" and "fin_abs (10 ^ 61) y" and "fin_abs (10 ^ 61) z"
  shows "fin_pos (10 ^ 64) (flinalg_norm rnd (x, y, z))"
proof -
  have sq: "fin_pos (10 ^ 123) (fmul rnd u u)" if "fin_abs (10 ^ 61) u" for u
    by (rule fmul_self_pos [OF r that]) (simp_all add: le_max_float)
  have s2: "fin_pos (10 ^ 124) (fadd rnd (fmul rnd x x) (fmul rnd y y))"
    by (rule fadd_pos [OF r sq [OF assms(2)] sq [OF assms(3)]]) (simp_all add: le_max_float)
  have s3: "fin_pos (10 ^ 63 * 10 ^ 63)
      (fadd rnd (fadd rnd (fmul rnd x x) (fmul rnd y y)) (fmul rnd z z))"
    by (rule fadd_pos [OF r s2 sq [OF assms(4)]]) (simp_all add: le_max_float)
  show ?thesis
    unfolding flinalg_norm.simps
    by (rule fsqrt_pos [OF r s3]) (simp_all add: le_max_float)
qed

lemma edge_length_fin:
  assumes r: "rounding rnd" and "coords_within (10 ^ 60) a" and "coords_within (10 ^ 60) b"
  shows "fin_pos (10 ^ 64) (flinalg_norm rnd (fvsub rnd (to_fl a) (to_fl b)))"
proof -
  obtain x y z where "fvsub rnd (to_fl a) (to_fl b) = (x, y, z)"
    "fin_abs (10 ^ 61) x" "fin_abs (10 ^ 61) y" "fin_abs (10 ^ 61) z"
    using fvsub_fin [OF assms] by blast
  then show ?thesis
    using flinalg_norm_fin [OF r, of x y z] by (simp only:)
qed

lemma heron_product_fl_fin:
  assumes r: "rounding rnd" and "coords_within (10 ^ 60) v0"
    and "coords_within (10 ^ 60) v1" and "coords_within (10 ^ 60) v2"
  shows "fin_abs (10 ^ 135 * 10 ^ 135) (heron_product_fl rnd (v0, v1, v2))"
proof -
  let ?l12 = "flinalg_norm rnd (fvsub rnd (to_fl v1) (to_fl v2))"
  let ?l02 = "flinalg_norm rnd (fvsub rnd (to_fl v0) (to_fl v2))"
  let ?l01 = "flinalg_norm rnd (fvsub rnd (to_fl v0) (to_fl v1))"
  let ?hp = "fmul rnd (Fin (1 / 2)) (fadd rnd (fadd rnd ?l12 ?l02) ?l01)"
  have l12: "fin_pos (10 ^ 64) ?l12"
    by (rule edge_length_fin [OF r assms(3,4)])
  have l02: "fin_pos (10 ^ 64) ?l02"
    by (rule edge_length_fin [OF r assms(2,4)])
  have l01: "fin_pos (10 ^ 64) ?l01"
    by (rule edge_length_fin [OF r assms(2,3)])
  have s1: "fin_pos (10 ^ 65) (fadd rnd ?l12 ?l02)"
    by (rule fadd_pos [OF r l12 l02]) (simp_all add: le_max_float)
  have s2: "fin_pos (10 ^ 66) (fadd rnd (fadd rnd ?l12 ?l02) ?l01)"
    by (rule fadd_pos [OF r s1 l01]) (simp_all add: le_max_float)
  have hp: "fin_abs (10 ^ 66) ?hp"
    by (rule fin_pos_abs, rule fmul_half_pos [OF r s2]) (simp_all add: le_max_float)
  have d: "fin_abs (10 ^ 67) (fsub rnd ?hp l)" if "fin_pos (10 ^ 64) l" for l
    by (rule fsub_fin [OF r hp fin_pos_abs [OF that]]) (simp_all add: le_max_float)
  have m1: "fin_abs (10 ^ 134) (fmul rnd ?hp (fsub rnd ?hp ?l12))"
    by (rule fmul_fin [OF r hp d [OF l12]]) (simp_all add: le_max_float)
  have m2: "fin_abs (10 ^ 202)
      (fmul rnd (fmul rnd ?hp (fsub rnd ?hp ?l12)) (fsub rnd ?hp ?l02))"
    by (rule fmul_fin [OF r m1 d [OF l02]]) (simp_all add: le_max_float)
  have m3: "fin_abs (10 ^ 135 * 10 ^ 135)
      (fmul rnd (fmul rnd (fmul rnd ?hp (fsub rnd ?hp ?l12)) (fsub rnd ?hp ?l02))
         (fsub rnd ?hp ?l01))"
    by (rule fmul_fin [OF r m2 d [OF l01]]) (simp_all add: le_max_float)
  show ?thesis
    unfolding heron_product_fl_def Let_def prod.case by (rule m3)
qed

lemma rounding_floor:
  assumes r: "rounding rnd"
  shows "0 \<le> rnd (1 / 1000000)" and "rnd (1 / 1000000) \<le> 1"
    and "0 < rnd (sqrt (rnd (1 / 1000000)))"
proof -
  show "0 \<le> rnd (1 / 1000000)"
    by (rule rounding_nonneg [OF r]) simp
  have "\<bar>rnd (1 / 1000000)\<bar> \<le> 2 * (1 / 1000000)"
    by (rule rounding_abs [OF r]) simp
  then show "rnd (1 / 1000000) \<le> 1"
    by simp
  show "0 < rnd (sqrt (rnd (1 / 1000000)))"
    using r by (simp add: rounding_def)
qed

lemma clipped_sqrt:
  assumes r: "rounding rnd" and c: "rnd (1 / 1000000) \<le> c"
  shows "fsqrt rnd (Fin c) = PInf
       \<or> (\<exists>a. fsqrt rnd (Fin c) = Fin a \<and> rnd (sqrt (rnd (1 / 1000000))) \<le> a \<and> 0 < a)"
proof -
  have c0: "0 \<le> c"
    using rounding_floor(1) [OF r] c by simp
  have "sqrt (rnd (1 / 1000000)) \<le> sqrt c"
    by (rule real_sqrt_le_mono) (rule c)
  then have ge: "rnd (sqrt (rnd (1 / 1000000))) \<le> rnd (sqrt c)"
    by (rule rounding_mono [OF r])
  then have "0 < rnd (sqrt c)"
    using rounding_floor(3) [OF r] by simp
  then show ?thesis
    using c0 ge max_float_big by (auto simp: fl_round_def Let_def)
qed

lemma area_floor_fl:
  assumes r: "rounding rnd" and n: "p \<noteq> NaN"
  shows "(fclip_min p (rnd (1 / 1000000)) = PInf
          \<or> (\<exists>c. fclip_min p (rnd (1 / 1000000)) = Fin c \<and> rnd (1 / 1000000) \<le> c))
       \<and> (fsqrt rnd (fclip_min p (rnd (1 / 1000000))) = PInf
          \<or> (\<exists>a. fsqrt rnd (fclip_min p (rnd (1 / 1000000))) = Fin a
                \<and> rnd (sqrt (rnd (1 / 1000000))) \<le> a \<and> 0 < a))"
proof (cases p)
  case (Fin x)
  show ?thesis
    unfolding Fin fclip_min.simps
    using clipped_sqrt [OF r, of "max x (rnd (1 / 1000000))"] by simp
next
  case PInf
  then show ?thesis by simp
next
  case NInf
  show ?thesis
    unfolding NInf fclip_min.simps
    using clipped_sqrt [OF r, of "rnd (1 / 1000000)"] by simp
next
  case NaN
  then show ?thesis using n by simp
qed

lemma laplacian_area_fl_eq: "laplacian_area_fl rnd t = triangle_area_fl rnd t"
  by (cases t)
    (simp add: laplacian_area_fl_def triangle_area_fl_def heron_product_fl_def Let_def)

lemma triangle_area_fl_fin:
  assumes r: "rounding rnd" and "coords_within (10 ^ 60) v0"
    and "coords_within (10 ^ 60) v1" and "coords_within (10 ^ 60) v2"
  shows "\<exists>x a. heron_product_fl rnd (v0, v1, v2) = Fin x
           \<and> triangle_area_fl rnd (v0, v1, v2) = Fin a"
proof -
  obtain x where x: "heron_product_fl rnd (v0, v1, v2) = Fin x" "\<bar>x\<bar> \<le> 10 ^ 135 * 10 ^ 135"
    using heron_product_fl_fin [OF assms] by (auto simp: fin_abs_def)
  let ?c = "max x (rnd (1 / 1000000))"
  have "0 \<le> ?c" "?c \<le> 10 ^ 135 * 10 ^ 135"
    using x(2) rounding_floor(1,2) [OF r] by (auto simp: max_def)
  then have "fin_pos (10 ^ 135 * 10 ^ 135) (Fin ?c)"
    by (simp add: fin_pos_def)
  then have "fin_pos (10 ^ 136) (fsqrt rnd (Fin ?c))"
    by (rule fsqrt_pos [OF r]) (simp_all add: le_max_float)
  then show ?thesis
    unfolding triangle_area_fl_def x(1) fclip_min.simps by (auto simp: fin_pos_def)
qed

text \<open>
  C9, as the code has it. Whenever the product under the square root does not come out as
  NaN, \<^verbatim>\<open>clip(min=1e-6)\<close> makes it at least the double 1e-6 (or leaves it plus infinity)
  before the square root is taken, so the area is not NaN and is at least the positive
  double that \<^verbatim>\<open>sqrt(1e-6)\<close> evaluates to, whatever the rounding did to the product;
  \<^verbatim>\<open>laplacian\<close> computes the same area, so it divides by a positive value. The product
  is not NaN, and the area is finite, whenever all coordinates of the face are at most
  1e60 in magnitude. \<^verbatim>\<open>_triangle_areas\<close> returns one such area per face when the
  triangulation indexes inside the point.
\<close>

theorem triangle_area_fl_floor:
  assumes r: "rounding rnd"
  shows "(heron_product_fl rnd t \<noteq> NaN \<longrightarrow>
            (fclip_min (heron_product_fl rnd t) (rnd (1 / 1000000)) = PInf
             \<or> (\<exists>c. fclip_min (heron_product_fl rnd t) (rnd (1 / 1000000)) = Fin c
                   \<and> rnd (1 / 1000000) \<le> c))
            \<and> (triangle_area_fl rnd t = PInf
               \<or> (\<exists>a. triangle_area_fl rnd t = Fin a
                     \<and> rnd (sqrt (rnd (1 / 1000000))) \<le> a \<and> 0 < a)))
       \<and> laplacian_area_fl rnd t = triangle_area_fl rnd t
       \<and> (coords_within (10 ^ 60) vertex_0 \<and> coords_within (10 ^ 60) vertex_1
            \<and> coords_within (10 ^ 60) vertex_2 \<longrightarrow>
            (\<exists>x a. heron_product_fl rnd (vertex_0, vertex_1, vertex_2) = Fin x
               \<and> triangle_area_fl rnd (vertex_0, vertex_1, vertex_2) = Fin a
               \<and> laplacian_area_fl rnd (vertex_0, vertex_1, vertex_2) = Fin a
               \<and> rnd (sqrt (rnd (1 / 1000000))) \<le> a \<and> 0 < a))
       \<and> (vertices faces point = Inr vs \<longrightarrow>
            triangle_areas_fl rnd faces point = Inr (map (triangle_area_fl rnd) vs))"
proof -
  have A: "(fclip_min (heron_product_fl rnd s) (rnd (1 / 1000000)) = PInf
             \<or> (\<exists>c. fclip_min (heron_product_fl rnd s) (rnd (1 / 1000000)) = Fin c
                   \<and> rnd (1 / 1000000) \<le> c))
            \<and> (triangle_area_fl rnd s = PInf
               \<or> (\<exists>a. triangle_area_fl rnd s = Fin a
                     \<and> rnd (sqrt (rnd (1 / 1000000))) \<le> a \<and> 0 < a))"
    if "heron_product_fl rnd s \<noteq> NaN" for s
    unfolding triangle_area_fl_def by (rule area_floor_fl [OF r that])
  have B: "\<exists>x a. heron_product_fl rnd (vertex_0, vertex_1, vertex_2) = Fin x
               \<and> triangle_area_fl rnd (vertex_0, vertex_1, vertex_2) = Fin a
               \<and> laplacian_area_fl rnd (vertex_0, vertex_1, vertex_2) = Fin a
               \<and> rnd (sqrt (rnd (1 / 1000000))) \<le> a \<and> 0 < a"
    if w: "coords_within (10 ^ 60) vertex_0" "coords_within (10 ^ 60) vertex_1"
      "coords_within (10 ^ 60) vertex_2"
  proof -
    obtain x a where xa: "heron_product_fl rnd (vertex_0, vertex_1, vertex_2) = Fin x"
      "triangle_area_fl rnd (vertex_0, vertex_1, vertex_2) = Fin a"
      using triangle_area_fl_fin [OF r w] by blast
    have "heron_product_fl rnd (vertex_0, vertex_1, vertex_2) \<noteq> NaN"
      by (simp add: xa(1))
    from A [OF this] have "rnd (sqrt (rnd (1 / 1000000))) \<le> a \<and> 0 < a"
      by (simp add: xa(2))
    then show ?thesis
      using xa by (simp add: laplacian_area_fl_eq)
  qed
  have C: "vertices faces point = Inr vs \<longrightarrow>
      triangle_areas_fl rnd faces point = Inr (map (triangle_area_fl rnd) vs)"
    by (simp add: triangle_areas_fl_def)
  show ?thesis
    using A [of t] B C laplacian_area_fl_eq [of rnd t] by blast
qed

lemma rounding_id: "rounding id"
  by (simp add: rounding_def sqrt_floor)

theorem triangle_area_fl_floor_witness:
  "rounding id
   \<and> heron_product_fl id ((1, 1, 1), (1, 1, 1), (1, 1, 1)) = Fin 0
   \<and> triangle_areas_fl id [(0, 1, 2)] [(1, 1, 1), (1, 1, 1), (1, 1, 1)] = Inr [Fin (1 / 1000)]
   \<and> laplacian_area_fl id ((1, 1, 1), (1, 1, 1), (1, 1, 1)) = Fin (1 / 1000)"
proof -
  have m: "- max_float \<le> 0" "0 \<le> max_float" "1 / 1000 \<le> max_float"
    using max_float_big by simp_all
  have h: "heron_product_fl id ((1, 1, 1), (1, 1, 1), (1, 1, 1)) = Fin 0"
    using m by (simp add: heron_product_fl_def fsub_def fl_round_def not_less)
  have a: "triangle_area_fl id ((1, 1, 1), (1, 1, 1), (1, 1, 1)) = Fin (1 / 1000)"
    using m max_float_big
    by (simp add: triangle_area_fl_def h fl_round_def sqrt_floor not_less)
  have v: "vertices [(0, 1, 2)] [(1, 1, 1), (1, 1, 1), (1, 1, 1)]
      = Inr [((1, 1, 1), (1, 1, 1), (1, 1, 1))]"
    by (simp add: vertices_def)
  have w: "coords_within (10 ^ 60) (1, 1, 1)"
    by simp
  from triangle_area_fl_floor [OF rounding_id, of "((1, 1, 1), (1, 1, 1), (1, 1, 1))"
      "(1, 1, 1)" "(1, 1, 1)" "(1, 1, 1)" "[(0, 1, 2)]" "[(1, 1, 1), (1, 1, 1), (1, 1, 1)]"
      "[((1, 1, 1), (1, 1, 1), (1, 1, 1))]"] v w
  show ?thesis
    using h a rounding_id by (simp add: laplacian_area_fl_eq)
qed

text \<open>
  C9, as stated, fails: at the surface \<^verbatim>\<open>[[0,0,0],[1e200,0,0],[0,1e200,0]]\<close> the squared
  coordinates overflow to infinity, the three edge lengths and the half perimeter are
  infinite, their difference is NaN, the clip leaves NaN, and the area is NaN.
\<close>

lemma triangle_area_fl_overflow:
  assumes "max_float < B * B" and "B \<le> max_float" and "0 < B"
  shows "triangle_area_fl id ((0, 0, 0), (B, 0, 0), (0, B, 0)) = NaN"
proof -
  have m: "0 < max_float" "\<not> max_float < B" "\<not> B < - max_float" "\<not> max_float < - B"
    "\<not> max_float < 0" "\<not> 0 < - max_float" "\<not> - B < - max_float"
    using assms by simp_all
  have z: "fl_round id 0 = Fin 0" "fl_round id B = Fin B" "fl_round id (- B) = Fin (- B)"
    using m by (simp_all add: fl_round_def)
  have sq: "fl_round id (B * B) = PInf"
    using assms(1) by (simp add: fl_round_def)
  show ?thesis
    by (simp add: triangle_area_fl_def heron_product_fl_def Let_def fsub_def z sq)
qed

theorem triangle_areas_fl_nan:
  "triangle_areas_fl id [(0, 1, 2)] [(0, 0, 0), (10 ^ 200, 0, 0), (0, 10 ^ 200, 0)]
     = Inr [NaN]"
proof -
  have big: "max_float < 10 ^ 200 * 10 ^ 200"
    by (simp add: max_float_def)
  have small: "(10::real) ^ 200 \<le> max_float"
    using max_float_big by (rule order_trans [rotated]) simp
  have v: "vertices [(0, 1, 2)] [(0, 0, 0), (10 ^ 200, 0, 0), (0, 10 ^ 200, 0)]
      = Inr [((0, 0, 0), (10 ^ 200, 0, 0), (0, 10 ^ 200, 0))]"
    unfolding vertices_def by simp
  have "triangle_area_fl id ((0, 0, 0), (10 ^ 200, 0, 0), (0, 10 ^ 200, 0)) = NaN"
    by (rule triangle_area_fl_overflow [OF big small]) simp
  then show ?thesis
    unfolding triangle_areas_fl_def v bindE_Inr by (simp only: list.map)
qed

section \<open>The discretized geodesic\<close>

lemma add_points_same_length:
  "length p = length q \<Longrightarrow> add_points p q = Inr (map (\<lambda>(x, y). vadd x y) (zip p q))"
  by (simp add: add_points_def broadcast2_def)

lemma geodesic_loop_frames:
  assumes sf: "\<And>c n. length c = N \<Longrightarrow> length n = N
      \<Longrightarrow> \<exists>q. stepforward c n = Inr q \<and> length q = N"
    and "2 \<le> length geod" and "\<forall>f \<in> set geod. length f = N"
  shows "\<exists>g. geodesic_loop stepforward k geod = Inr g \<and> length g = length geod + k
           \<and> (\<forall>f \<in> set g. length f = N) \<and> take (length geod) g = geod"
  using assms(2,3)
proof (induction k arbitrary: geod)
  case 0
  then show ?case by simp
next
  case (Suc k)
  let ?c = "geod ! (length geod - 2)" and ?n = "geod ! (length geod - 1)"
  have "?c \<in> set geod" "?n \<in> set geod"
    using Suc.prems(1) by (auto intro!: nth_mem)
  then have "length ?c = N" "length ?n = N"
    using Suc.prems(2) by auto
  then obtain q where q: "stepforward ?c ?n = Inr q" "length q = N"
    using sf by blast
  have "2 \<le> length (geod @ [q])" "\<forall>f \<in> set (geod @ [q]). length f = N"
    using Suc.prems q by auto
  from Suc.IH [OF this] obtain g where g: "geodesic_loop stepforward k (geod @ [q]) = Inr g"
    "length g = length (geod @ [q]) + k" "\<forall>f \<in> set g. length f = N"
    "take (length (geod @ [q])) g = geod @ [q]"
    by blast
  have "take (length geod) g = take (length geod) (take (length (geod @ [q])) g)"
    by (simp add: min_def)
  also have "\<dots> = geod"
    unfolding g(4) by simp
  finally have "take (length geod) g = geod" .
  then show ?case
    using g q by simp
qed

text \<open>
  C6, as the code has it. For \<open>n_steps\<close> of at least 2, a tangent vector of the shape of
  the base point, and a step function that returns a frame of that shape whenever it is
  given two such frames, \<^verbatim>\<open>discrete_geodesic_ivp\<close> returns exactly \<open>n_steps\<close> frames;
  frame 0 is the base point and frame 1 is \<open>base_point + tangent_vec / (n_steps - 1)\<close>.
\<close>

theorem discrete_geodesic_ivp_frames:
  assumes "2 \<le> n_steps" and "length tangent_vec = length base_point"
    and sf: "\<forall>c n. length c = length base_point \<and> length n = length base_point
           \<longrightarrow> (\<exists>q. stepforward c n = Inr q \<and> length q = length base_point)"
  shows "\<exists>geod. discrete_geodesic_ivp stepforward n_steps tangent_vec base_point = Inr geod
       \<and> int (length geod) = n_steps \<and> geod ! 0 = base_point
       \<and> geod ! 1 = map (\<lambda>(x, y). vadd x y)
            (zip base_point (map (\<lambda>v. vdiv v (real_of_int (n_steps - 1))) tangent_vec))"
proof -
  let ?next = "map (\<lambda>(x, y). vadd x y)
            (zip base_point (map (\<lambda>v. vdiv v (real_of_int (n_steps - 1))) tangent_vec))"
  have nx: "add_points base_point
      (map (\<lambda>v. vdiv v (real_of_int (n_steps - 1))) tangent_vec) = Inr ?next"
    using assms(2) by (simp add: add_points_same_length)
  have len: "length ?next = length base_point"
    using assms(2) by simp
  have "\<exists>g. geodesic_loop stepforward (nat (n_steps - 2)) [base_point, ?next] = Inr g
      \<and> length g = length [base_point, ?next] + nat (n_steps - 2)
      \<and> (\<forall>f \<in> set g. length f = length base_point)
      \<and> take (length [base_point, ?next]) g = [base_point, ?next]"
    by (rule geodesic_loop_frames) (use sf len in auto)
  then obtain g where g0:
    "geodesic_loop stepforward (nat (n_steps - 2)) [base_point, ?next] = Inr g"
    "length g = length [base_point, ?next] + nat (n_steps - 2)"
    "\<forall>f \<in> set g. length f = length base_point"
    "take (length [base_point, ?next]) g = [base_point, ?next]"
    by blast
  have g: "geodesic_loop stepforward (nat (n_steps - 2)) [base_point, ?next] = Inr g"
    "length g = 2 + nat (n_steps - 2)" "\<forall>f \<in> set g. length f = length base_point"
    "take (Suc (Suc 0)) g = [base_point, ?next]"
    using g0 by simp_all
  have f0: "g ! 0 = base_point" and f1: "g ! 1 = ?next"
    using nth_take [of 0 "Suc (Suc 0)" g] nth_take [of 1 "Suc (Suc 0)" g]
    unfolding g(4) by simp_all
  have "hd g = base_point"
    using f0 g(2) by (cases g) auto
  then have "stack g = Inr g"
    using g(3) by (simp add: stack_def list_all_iff)
  then have "discrete_geodesic_ivp stepforward n_steps tangent_vec base_point = Inr g"
    using assms(1) nx g(1)
    by (simp add: discrete_geodesic_ivp_def discrete_geodesic_ivp_single_def)
  moreover have "int (length g) = n_steps"
    using g(2) assms(1) by simp
  ultimately show ?thesis
    using f0 f1 by blast
qed

theorem discrete_geodesic_ivp_frames_witness:
  "discrete_geodesic_ivp initial_next_next_point 3 [(2, 4, 6)] [(1, 1, 1)]
     = Inr [[(1, 1, 1)], [(2, 3, 4)], [(3, 5, 7)]]"
proof -
  have "\<forall>c n. length c = length [(1::real, 1::real, 1::real)]
          \<and> length n = length [(1::real, 1::real, 1::real)]
      \<longrightarrow> (\<exists>q. initial_next_next_point c n = Inr q
             \<and> length q = length [(1::real, 1::real, 1::real)])"
    by (simp add: initial_next_next_point_def broadcast2_def add_points_def)
  from discrete_geodesic_ivp_frames
    [of 3 "[(2, 4, 6)]" "[(1, 1, 1)]" initial_next_next_point, OF _ _ this]
  show ?thesis
    by (simp add: discrete_geodesic_ivp_def discrete_geodesic_ivp_single_def add_points_def
        broadcast2_def numeral_2_eq_2 initial_next_next_point_def stack_def)
qed

text \<open>
  C6, as stated, fails for \<open>n_steps\<close> below 2: the list of frames starts with two frames
  before the loop runs. With \<open>n_steps = 0\<close> two frames are returned.
\<close>

theorem discrete_geodesic_ivp_two_frames:
  "discrete_geodesic_ivp initial_next_next_point 0 [(2, 4, 6)] [(1, 1, 1)]
     = Inr [[(1, 1, 1)], [(- 1, - 3, - 5)]]
   \<and> int (length [[(1::real, 1::real, 1::real)], [(- 1, - 3, - 5)]]) \<noteq> 0"
  by (simp add: discrete_geodesic_ivp_def discrete_geodesic_ivp_single_def add_points_def
      broadcast2_def initial_next_next_point_def stack_def)

section \<open>Heron's formula and the surface metric\<close>

text \<open>
  The product under Heron's square root is a quarter of the determinant of the surface
  metric matrix of the face.
\<close>

lemma dot_self_nonneg: "0 \<le> dot v v"
  by (cases v) simp

lemma linalg_norm_nonneg: "0 \<le> linalg_norm v"
  by (simp add: linalg_norm_def dot_self_nonneg)

lemma linalg_norm_square: "linalg_norm v * linalg_norm v = dot v v"
  by (simp add: linalg_norm_def dot_self_nonneg)

lemma heron_algebra:
  fixes a b c :: real
  shows "(0.5 * (a + b + c)) * (0.5 * (a + b + c) - a) * (0.5 * (a + b + c) - b)
           * (0.5 * (a + b + c) - c)
     = (4 * (b * b) * (c * c) - (b * b + c * c - a * a) * (b * b + c * c - a * a)) / 16"
proof -
  have h: "0.5 * (a + b + c) = (a + b + c) / 2"
    by simp
  have fa: "(a + b + c) / 2 - a = (b + c - a) / 2"
    and fb: "(a + b + c) / 2 - b = (a + c - b) / 2"
    and fc: "(a + b + c) / 2 - c = (a + b - c) / 2"
    by (simp_all add: field_simps)
  have "(a + b + c) * (b + c - a) * (a + c - b) * (a + b - c)
      = 4 * (b * b) * (c * c) - (b * b + c * c - a * a) * (b * b + c * c - a * a)"
    by (simp add: algebra_simps)
  then show ?thesis
    unfolding h fa fb fc by simp
qed

lemma gram_algebra:
  fixes p q r u v w :: real
  shows "4 * (u * u + v * v + w * w) * (p * p + q * q + r * r)
       - ((u * u + v * v + w * w) + (p * p + q * q + r * r)
            - ((p - u) * (p - u) + (q - v) * (q - v) + (r - w) * (r - w)))
         * ((u * u + v * v + w * w) + (p * p + q * q + r * r)
            - ((p - u) * (p - u) + (q - v) * (q - v) + (r - w) * (r - w)))
     = 4 * ((p * p + q * q + r * r) * (u * u + v * v + w * w)
            - (p * u + q * v + r * w) * (u * p + v * q + w * r))"
  by algebra

lemma heron_product_det:
  "heron_product t = linalg_det (matmul_23_32 (one_form t) (transpose23 (one_form t))) / 4"
proof -
  obtain x0 y0 z0 x1 y1 z1 x2 y2 z2 where t: "t = ((x0, y0, z0), (x1, y1, z1), (x2, y2, z2))"
    by (metis prod_cases3)
  define p q r u v w where "p = x1 - x0" and "q = y1 - y0" and "r = z1 - z0"
    and "u = x2 - x0" and "v = y2 - y0" and "w = z2 - z0"
  let ?a = "linalg_norm (vsub (x1, y1, z1) (x2, y2, z2))"
  let ?b = "linalg_norm (vsub (x0, y0, z0) (x2, y2, z2))"
  let ?c = "linalg_norm (vsub (x0, y0, z0) (x1, y1, z1))"
  have a: "?a * ?a = (p - u) * (p - u) + (q - v) * (q - v) + (r - w) * (r - w)"
    by (simp add: linalg_norm_square p_def q_def r_def u_def v_def w_def)
  have b: "?b * ?b = u * u + v * v + w * w"
    by (simp add: linalg_norm_square u_def v_def w_def algebra_simps)
  have c: "?c * ?c = p * p + q * q + r * r"
    by (simp add: linalg_norm_square p_def q_def r_def algebra_simps)
  have d: "linalg_det (matmul_23_32 (one_form t) (transpose23 (one_form t)))
      = (p * p + q * q + r * r) * (u * u + v * v + w * w)
            - (p * u + q * v + r * w) * (u * p + v * q + w * r)"
    by (simp add: t one_form_def p_def q_def r_def u_def v_def w_def)
  have "heron_product t = (4 * (?b * ?b) * (?c * ?c)
      - (?b * ?b + ?c * ?c - ?a * ?a) * (?b * ?b + ?c * ?c - ?a * ?a)) / 16"
    unfolding t heron_product_def Let_def prod.case
    by (rule trans [OF _ heron_algebra]) (simp add: algebra_simps)
  also have "\<dots> = linalg_det (matmul_23_32 (one_form t) (transpose23 (one_form t))) / 4"
    unfolding a b c d gram_algebra by simp
  finally show ?thesis .
qed

lemma det_cross:
  "linalg_det (matmul_23_32 (e1, e2) (transpose23 (e1, e2))) = dot (cross e1 e2) (cross e1 e2)"
proof -
  obtain p q r u v w where e: "e1 = (p, q, r)" "e2 = (u, v, w)"
    by (metis prod_cases3)
  show ?thesis
    unfolding e by (simp add: algebra_simps)
qed

lemma det_nonneg: "0 \<le> linalg_det (matmul_23_32 (one_form t) (transpose23 (one_form t)))"
proof -
  obtain v0 v1 v2 where t: "t = (v0, v1, v2)"
    by (metis prod_cases3)
  show ?thesis
    unfolding t one_form_def prod.case det_cross by (rule dot_self_nonneg)
qed

lemma heron_product_nonneg: "0 \<le> heron_product t"
  using det_nonneg [of t] by (simp add: heron_product_det)

lemma face_area_heron:
  "sqrt (linalg_det (matmul_23_32 (one_form t) (transpose23 (one_form t))))
     = 2 * sqrt (heron_product t)"
proof -
  have "linalg_det (matmul_23_32 (one_form t) (transpose23 (one_form t))) = 4 * heron_product t"
    by (simp add: heron_product_det)
  then show ?thesis
    by (simp add: real_sqrt_mult)
qed

lemma dot_vscale: "dot (vscale k v) (vscale k v) = k * k * dot v v"
  by (cases v) (simp add: algebra_simps)

lemma normal_norm: "linalg_norm (normal t) = sqrt (heron_product t)"
proof -
  obtain v0 v1 v2 where t: "t = (v0, v1, v2)"
    by (metis prod_cases3)
  have "dot (normal t) (normal t)
      = linalg_det (matmul_23_32 (one_form t) (transpose23 (one_form t))) / 4"
    unfolding t one_form_def normal_def prod.case det_cross dot_vscale by simp
  then show ?thesis
    by (simp add: linalg_norm_def heron_product_det)
qed

lemma triangle_area_unclipped:
  "1 / 1000000 \<le> heron_product t \<Longrightarrow> triangle_area t = sqrt (heron_product t)"
  by (simp add: triangle_area_def clip_min_def max_def)

lemma dot_vscale_left: "dot (vscale k v) w = k * dot v w"
  by (cases v, cases w) (simp add: algebra_simps)

lemma cross_orthogonal: "dot (cross e1 e2) e1 = 0 \<and> dot (cross e1 e2) e2 = 0"
proof -
  obtain p q r u v w where e: "e1 = (p, q, r)" "e2 = (u, v, w)"
    by (metis prod_cases3)
  show ?thesis
    unfolding e by (simp add: algebra_simps)
qed

lemma normal_orthogonal:
  "dot (normal (v0, v1, v2)) (vsub v1 v0) = 0 \<and> dot (normal (v0, v1, v2)) (vsub v2 v0) = 0"
  by (simp add: normal_def dot_vscale_left cross_orthogonal)

lemma sum_list_update_add:
  fixes xs :: "real list"
  shows "i < length xs \<Longrightarrow> sum_list (xs[i := xs ! i + s]) = sum_list xs + s"
proof (induction xs arbitrary: i)
  case Nil
  then show ?case by simp
next
  case (Cons x xs)
  then show ?case by (cases i) simp_all
qed

lemma sum_list_scatter:
  fixes input :: "real list"
  assumes "\<forall>(i, s) \<in> set zs. i < length input"
  shows "sum_list (fold (\<lambda>(i, s) acc. acc[i := acc ! i + s]) zs input)
       = sum_list input + sum_list (map snd zs)"
  using assms
proof (induction zs arbitrary: input)
  case Nil
  then show ?case by simp
next
  case (Cons z zs)
  obtain i s where z: "z = (i, s)" by (cases z)
  have i: "i < length input"
    using Cons.prems z by simp
  have "\<forall>(j, s') \<in> set zs. j < length (input[i := input ! i + s])"
    using Cons.prems by simp
  from Cons.IH [OF this] show ?case
    using i by (simp add: z sum_list_update_add)
qed

lemma scatter_add_sum:
  assumes "scatter_add input index src = Inr out" and "length src = length index"
  shows "sum_list out = sum_list input + sum_list src"
proof -
  have ok: "list_all (\<lambda>i. i < length input) index"
    using assms(1) by (auto simp: scatter_add_def split: if_splits)
  then have "\<forall>(i, s) \<in> set (zip index src). i < length input"
    by (auto simp: list_all_iff dest: set_zip_leftD)
  from sum_list_scatter [OF this] show ?thesis
    using assms ok by (simp add: scatter_add_def)
qed

lemma sum_list_scale:
  fixes xs :: "real list"
  shows "sum_list (map (\<lambda>x. 2 * x / 3) xs) = 2 * sum_list xs / 3"
  by (induction xs) (simp_all add: field_simps)

lemma sum_list_twice:
  fixes f :: "'a \<Rightarrow> real"
  shows "sum_list (map (\<lambda>x. 2 * f x) xs) = 2 * sum_list (map f xs)"
  by (induction xs) simp_all

lemma vertices_in_range:
  assumes "vertices faces point = Inr vs"
  shows "list_all (\<lambda>i. i < length point) (concat (map (\<lambda>(i, j, k). [i, j, k]) faces))"
    and "length vs = length faces"
  using assms by (auto simp: vertices_def list_all_iff split: if_splits)

lemma length_concat_faces:
  "length (concat (map (\<lambda>(i, j, k). [i, j, k]) faces)) = 3 * length faces"
  by (induction faces) auto

text \<open>
  C4. When the Heron product of every face is at least the floor 1e-6, the vertex areas
  and the face areas of a surface have the same sum: every face hands two thirds of its
  Heron area to three vertex slots, and its face area is twice its Heron area.
\<close>

theorem vertex_areas_sum_face_areas:
  assumes v: "vertices faces point = Inr vs"
    and fl: "\<forall>t \<in> set vs. 1 / 1000000 \<le> heron_product t"
  shows "\<exists>va fa. vertex_areas faces point = Inr va \<and> face_areas faces point = Inr fa
           \<and> sum_list va = sum_list fa"
proof -
  let ?area = "map triangle_area vs"
  let ?ids = "concat (map (\<lambda>(i, j, k). [i, j, k]) faces)"
  let ?val = "concat (replicate 3 ?area)"
  have ta: "triangle_areas faces point = Inr ?area"
    using v by (simp add: triangle_areas_def)
  have len: "length ?val = length ?ids"
    using vertices_in_range(2) [OF v] by (simp add: length_concat_faces numeral_3_eq_3)
  have ok: "list_all (\<lambda>i. i < length (replicate (length point) (0::real))) ?ids"
    using vertices_in_range(1) [OF v] by simp
  define inc where "inc = fold (\<lambda>(i, s) acc. acc[i := acc ! i + s]) (zip ?ids ?val)
      (replicate (length point) (0::real))"
  have sc: "scatter_add (replicate (length point) 0) ?ids ?val = Inr inc"
    using ok by (simp add: scatter_add_def inc_def)
  have va: "vertex_areas faces point = Inr (map (\<lambda>x. 2 * x / 3) inc)"
    using ta sc by (simp add: vertex_areas_def Let_def)
  have "sum_list inc = sum_list (replicate (length point) (0::real)) + sum_list ?val"
    by (rule scatter_add_sum [OF sc len])
  also have "\<dots> = 3 * sum_list ?area"
    by (simp add: numeral_3_eq_3 sum_list_replicate)
  finally have s1: "sum_list (map (\<lambda>x. 2 * x / 3) inc) = 2 * sum_list ?area"
    by (simp add: sum_list_scale)
  have fa: "face_areas faces point = Inr (map (\<lambda>t. 2 * sqrt (heron_product t)) vs)"
    using v by (simp add: face_areas_def surface_metric_matrices_def surface_one_forms_def
        surface_metric_matrices_from_one_forms_def comp_def face_area_heron)
  have eq: "map (\<lambda>t. 2 * sqrt (heron_product t)) vs
      = map (\<lambda>t. 2 * triangle_area t) vs"
    using fl by (simp add: triangle_area_unclipped)
  have "sum_list (map (\<lambda>t. 2 * sqrt (heron_product t)) vs) = 2 * sum_list ?area"
    unfolding eq by (rule sum_list_twice)
  then show ?thesis
    using va fa s1 by simp
qed

lemma sqrt_36: "sqrt 36 = 6"
  by (rule real_sqrt_unique) simp_all

lemma sqrt_144: "sqrt 144 = 12"
  by (rule real_sqrt_unique) simp_all

lemma sqrt_576: "sqrt 576 = 24"
  by (rule real_sqrt_unique) simp_all

lemma heron_product_345: "heron_product ((0, 0, 0), (3, 0, 0), (0, 4, 0)) = 36"
  by (simp add: heron_product_det one_form_def)

lemma heron_product_38: "heron_product ((0, 0, 0), (3, 0, 0), (0, 8, 0)) = 144"
  by (simp add: heron_product_det one_form_def)

lemma triangle_area_345: "triangle_area ((0, 0, 0), (3, 0, 0), (0, 4, 0)) = 6"
  by (simp add: triangle_area_def heron_product_345 clip_min_def sqrt_36)

lemma triangle_area_38: "triangle_area ((0, 0, 0), (3, 0, 0), (0, 8, 0)) = 12"
  by (simp add: triangle_area_def heron_product_38 clip_min_def sqrt_144)

lemma vertices_two_faces:
  "vertices [(0, 1, 2), (0, 1, 3)] [(0, 0, 0), (3, 0, 0), (0, 4, 0), (0, 8, 0)]
     = Inr [((0, 0, 0), (3, 0, 0), (0, 4, 0)), ((0, 0, 0), (3, 0, 0), (0, 8, 0))]"
  by (simp add: vertices_def)

lemma face_areas_two_faces:
  "face_areas [(0, 1, 2), (0, 1, 3)] [(0, 0, 0), (3, 0, 0), (0, 4, 0), (0, 8, 0)]
     = Inr [12, 24]"
  unfolding face_areas_def surface_metric_matrices_def surface_one_forms_def
    vertices_two_faces
  by (simp add: one_form_def surface_metric_matrices_from_one_forms_def sqrt_144 sqrt_576)

lemma triangle_areas_two_faces:
  "triangle_areas [(0, 1, 2), (0, 1, 3)] [(0, 0, 0), (3, 0, 0), (0, 4, 0), (0, 8, 0)]
     = Inr [6, 12]"
  unfolding triangle_areas_def vertices_two_faces
  by (simp add: triangle_area_345 triangle_area_38)

lemma vertex_areas_two_faces:
  "vertex_areas [(0, 1, 2), (0, 1, 3)] [(0, 0, 0), (3, 0, 0), (0, 4, 0), (0, 8, 0)]
     = Inr [12, 12, 4, 8]"
  unfolding vertex_areas_def triangle_areas_two_faces
  by (simp add: scatter_add_def numeral_3_eq_3)

theorem vertex_areas_sum_face_areas_witness:
  "vertex_areas [(0, 1, 2), (0, 1, 3)] [(0, 0, 0), (3, 0, 0), (0, 4, 0), (0, 8, 0)]
     = Inr [12, 12, 4, 8]
   \<and> face_areas [(0, 1, 2), (0, 1, 3)] [(0, 0, 0), (3, 0, 0), (0, 4, 0), (0, 8, 0)]
     = Inr [12, 24]
   \<and> sum_list [12, 12, 4, 8] = sum_list [12, 24 :: real]"
proof -
  have fl: "\<forall>t \<in> set [((0, 0, 0), (3, 0, 0), (0, 4, 0)), ((0, 0, 0), (3, 0, 0), (0, 8, 0))].
      1 / 1000000 \<le> heron_product t"
    by (simp add: heron_product_345 heron_product_38)
  from vertex_areas_sum_face_areas [OF vertices_two_faces fl]
  show ?thesis
    unfolding vertex_areas_two_faces face_areas_two_faces by simp
qed

text \<open>
  C3, as the code has it. \<^verbatim>\<open>face_areas\<close> is the square root of the determinant of the
  surface metric, which is twice the square root of the Heron product: on every face whose
  Heron product is at least the floor 1e-6, \<^verbatim>\<open>face_areas\<close> is twice
  \<^verbatim>\<open>_triangle_areas\<close>.
\<close>

theorem face_areas_twice_triangle_areas:
  assumes v: "vertices faces point = Inr vs"
  shows "\<exists>fa ta. face_areas faces point = Inr fa \<and> triangle_areas faces point = Inr ta
           \<and> length fa = length faces \<and> length ta = length faces
           \<and> (\<forall>i < length faces. fa ! i = 2 * sqrt (heron_product (vs ! i))
                \<and> (1 / 1000000 \<le> heron_product (vs ! i) \<longrightarrow> fa ! i = 2 * ta ! i))"
proof -
  have len: "length vs = length faces"
    by (rule vertices_in_range(2) [OF v])
  have fa: "face_areas faces point = Inr (map (\<lambda>t. 2 * sqrt (heron_product t)) vs)"
    using v by (simp add: face_areas_def surface_metric_matrices_def surface_one_forms_def
        surface_metric_matrices_from_one_forms_def comp_def face_area_heron)
  have ta: "triangle_areas faces point = Inr (map triangle_area vs)"
    using v by (simp add: triangle_areas_def)
  show ?thesis
    using fa ta len by (simp add: triangle_area_unclipped)
qed

theorem face_areas_twice_triangle_areas_witness:
  "face_areas [(0, 1, 2), (0, 1, 3)] [(0, 0, 0), (3, 0, 0), (0, 4, 0), (0, 8, 0)]
     = Inr [2 * 6, 2 * 12]
   \<and> triangle_areas [(0, 1, 2), (0, 1, 3)] [(0, 0, 0), (3, 0, 0), (0, 4, 0), (0, 8, 0)]
     = Inr [6, 12]"
  using face_areas_twice_triangle_areas [OF vertices_two_faces]
  unfolding face_areas_two_faces triangle_areas_two_faces by simp

text \<open>
  C3, as stated, fails: on the right triangle with legs 3 and 4 \<^verbatim>\<open>face_areas\<close> is 12
  and \<^verbatim>\<open>_triangle_areas\<close> is 6.
\<close>

theorem face_areas_differ_from_triangle_areas:
  "face_areas [(0, 1, 2)] [(0, 0, 0), (3, 0, 0), (0, 4, 0)] = Inr [12]
   \<and> triangle_areas [(0, 1, 2)] [(0, 0, 0), (3, 0, 0), (0, 4, 0)] = Inr [6]
   \<and> (12 :: real) \<noteq> 6"
  by (simp add: triangle_areas_def vertices_def triangle_area_345
      face_areas_def surface_metric_matrices_def surface_one_forms_def
      one_form_def surface_metric_matrices_from_one_forms_def sqrt_144)

text \<open>
  C7. The normal of a face is half the cross product of its two edge vectors at vertex 0;
  its length is the area of the triangle (Heron's formula), which is the value of
  \<^verbatim>\<open>_triangle_areas\<close> wherever the floor does not act; and it is orthogonal to both
  edge vectors.
\<close>

theorem normals_half_cross:
  assumes v: "vertices faces point = Inr vs"
  shows "normals faces point
       = Inr (map (\<lambda>(v0, v1, v2). vscale 0.5 (cross (vsub v1 v0) (vsub v2 v0))) vs)
     \<and> (\<forall>(v0, v1, v2) \<in> set vs.
          linalg_norm (normal (v0, v1, v2)) = sqrt (heron_product (v0, v1, v2))
          \<and> (1 / 1000000 \<le> heron_product (v0, v1, v2)
                \<longrightarrow> linalg_norm (normal (v0, v1, v2)) = triangle_area (v0, v1, v2))
          \<and> dot (normal (v0, v1, v2)) (vsub v1 v0) = 0
          \<and> dot (normal (v0, v1, v2)) (vsub v2 v0) = 0)"
proof -
  have "normals faces point = Inr (map normal vs)"
    using v by (simp add: normals_def)
  moreover have "normal = (\<lambda>(v0, v1, v2). vscale 0.5 (cross (vsub v1 v0) (vsub v2 v0)))"
    by (simp add: normal_def)
  ultimately have "normals faces point
       = Inr (map (\<lambda>(v0, v1, v2). vscale 0.5 (cross (vsub v1 v0) (vsub v2 v0))) vs)"
    by simp
  then show ?thesis
    by (auto simp: normal_norm triangle_area_unclipped normal_orthogonal)
qed

theorem normals_half_cross_witness:
  "normals [(0, 1, 2)] [(0, 0, 0), (3, 0, 0), (0, 4, 0)] = Inr [(0, 0, 6)]
   \<and> linalg_norm (0, 0, 6) = 6
   \<and> triangle_area ((0, 0, 0), (3, 0, 0), (0, 4, 0)) = 6
   \<and> dot (0, 0, 6) (vsub (3, 0, 0) (0, 0, 0)) = 0
   \<and> dot (0, 0, 6) (vsub (0, 4, 0) (0, 0, 0)) = 0"
proof -
  have v: "vertices [(0, 1, 2)] [(0, 0, 0), (3, 0, 0), (0, 4, 0)]
      = Inr [((0, 0, 0), (3, 0, 0), (0, 4, 0))]"
    by (simp add: vertices_def)
  from normals_half_cross [OF v] show ?thesis
    by (simp add: normal_def heron_product_345 sqrt_36 triangle_area_345)
qed

section \<open>The discrete Laplacian\<close>

lemma update_add:
  fixes a1 a2 :: "real list"
  assumes "length a1 = length a2"
  shows "(map (\<lambda>(x, y). x + y) (zip a1 a2))
           [i := map (\<lambda>(x, y). x + y) (zip a1 a2) ! i + (x1 + x2)]
       = map (\<lambda>(x, y). x + y) (zip (a1[i := a1 ! i + x1]) (a2[i := a2 ! i + x2]))"
proof (cases "i < length a1")
  case True
  then show ?thesis
    using assms by (simp add: zip_update map_update algebra_simps)
next
  case False
  then show ?thesis
    using assms by (simp add: list_update_beyond not_less)
qed

lemma scatter_fold_add:
  fixes a1 a2 s1 s2 :: "real list"
  assumes "length s1 = length s2" and "length a1 = length a2"
  shows "fold (\<lambda>(i, s) acc. acc[i := acc ! i + s])
           (zip idx (map (\<lambda>(x, y). x + y) (zip s1 s2)))
           (map (\<lambda>(x, y). x + y) (zip a1 a2))
       = map (\<lambda>(x, y). x + y)
           (zip (fold (\<lambda>(i, s) acc. acc[i := acc ! i + s]) (zip idx s1) a1)
                (fold (\<lambda>(i, s) acc. acc[i := acc ! i + s]) (zip idx s2) a2))"
  using assms
proof (induction idx arbitrary: s1 s2 a1 a2)
  case Nil
  then show ?case by simp
next
  case (Cons i idx)
  show ?case
  proof (cases s1)
    case Nil
    then show ?thesis using Cons.prems by simp
  next
    case (Cons x1 t1)
    then obtain x2 t2 where s2: "s2 = x2 # t2" and len: "length t1 = length t2"
      using Cons.prems(1) by (cases s2) auto
    have len2: "length (a1[i := a1 ! i + x1]) = length (a2[i := a2 ! i + x2])"
      using Cons.prems(2) by simp
    show ?thesis
      using Cons.IH [OF len len2] Cons.prems(2)
      by (simp add: Cons s2 update_add)
  qed
qed

lemma update_scale:
  fixes a :: "real list"
  shows "(map ((*) c) a)[i := map ((*) c) a ! i + c * x] = map ((*) c) (a[i := a ! i + x])"
proof (cases "i < length a")
  case True
  then show ?thesis
    by (simp add: map_update algebra_simps)
next
  case False
  then show ?thesis
    by (simp add: list_update_beyond not_less)
qed

lemma scatter_fold_scale:
  fixes a s :: "real list"
  shows "fold (\<lambda>(i, s) acc. acc[i := acc ! i + s]) (zip idx (map ((*) c) s)) (map ((*) c) a)
       = map ((*) c) (fold (\<lambda>(i, s) acc. acc[i := acc ! i + s]) (zip idx s) a)"
proof (induction idx arbitrary: s a)
  case Nil
  then show ?case by simp
next
  case (Cons i idx)
  show ?case
  proof (cases s)
    case Nil
    then show ?thesis by simp
  next
    case (Cons x t)
    show ?thesis
      using Cons.IH [of t "a[i := a ! i + x]"]
      by (simp add: Cons update_scale)
  qed
qed

lemma scatter_fold_length:
  "length (fold (\<lambda>(i, s) acc. acc[i := acc ! i + s]) zs (a :: real list)) = length a"
  by (induction zs arbitrary: a) auto

lemma vadd_components:
  "fst (vadd x y) = fst x + fst y"
  "fst (snd (vadd x y)) = fst (snd x) + fst (snd y)"
  "snd (snd (vadd x y)) = snd (snd x) + snd (snd y)"
  by (cases x, cases y, simp)+

lemma vscale_components:
  "fst (vscale c x) = c * fst x"
  "fst (snd (vscale c x)) = c * fst (snd x)"
  "snd (snd (vscale c x)) = c * snd (snd x)"
  by (cases x, simp)+

lemma vscale_vsub_vadd:
  "vscale c (vsub (vadd a b) (vadd a' b')) = vadd (vscale c (vsub a a')) (vscale c (vsub b b'))"
  by (cases a, cases b, cases a', cases b') (simp add: algebra_simps)

lemma vscale_vsub_vscale:
  "vscale c (vsub (vscale k a) (vscale k b)) = vscale k (vscale c (vsub a b))"
  by (cases a, cases b) (simp add: algebra_simps)

lemma map2_same:
  "map (\<lambda>(x, y). h x y) (zip (map f xs) (map g xs)) = map (\<lambda>z. h (f z) (g z)) xs"
  by (induction xs) simp_all

lemma laplacian_values_eq:
  "laplacian_values ws id0 id1 t
     = map (\<lambda>(c, i, j). vscale c (vsub (t ! i) (t ! j))) (zip ws (zip id0 id1))"
  by (simp add: laplacian_values_def zip_map2 split_def)

lemma laplacian_values_cong:
  assumes "list_all (\<lambda>i. i < n) id0" and "list_all (\<lambda>i. i < n) id1"
    and "\<And>i j. i < n \<Longrightarrow> j < n \<Longrightarrow> vsub (t ! i) (t ! j) = g i j"
  shows "laplacian_values ws id0 id1 t = map (\<lambda>(c, i, j). vscale c (g i j)) (zip ws (zip id0 id1))"
  unfolding laplacian_values_eq
proof (rule map_cong [OF refl])
  fix z assume "z \<in> set (zip ws (zip id0 id1))"
  then obtain c i j where z: "z = (c, i, j)" and "(i, j) \<in> set (zip id0 id1)"
    by (metis prod_cases3 set_zip_rightD)
  then have "i \<in> set id0" "j \<in> set id1"
    by (auto dest: set_zip_leftD set_zip_rightD)
  then have "i < n" "j < n"
    using assms(1,2) by (auto simp: list_all_iff)
  then show "(case z of (c, i, j) \<Rightarrow> vscale c (vsub (t ! i) (t ! j)))
      = (case z of (c, i, j) \<Rightarrow> vscale c (g i j))"
    by (simp add: z assms(3))
qed

lemma laplacian_values_add:
  assumes "list_all (\<lambda>i. i < length u) id0" and "list_all (\<lambda>i. i < length u) id1"
    and "length u = length v"
  shows "laplacian_values ws id0 id1 (map (\<lambda>(x, y). vadd x y) (zip u v))
       = map (\<lambda>(x, y). vadd x y)
           (zip (laplacian_values ws id0 id1 u) (laplacian_values ws id0 id1 v))"
proof -
  have "laplacian_values ws id0 id1 (map (\<lambda>(x, y). vadd x y) (zip u v))
      = map (\<lambda>(c, i, j). vscale c (vsub (vadd (u ! i) (v ! i)) (vadd (u ! j) (v ! j))))
          (zip ws (zip id0 id1))"
    by (rule laplacian_values_cong [OF assms(1,2)]) (simp add: assms(3))
  also have "\<dots> = map (\<lambda>(x, y). vadd x y)
           (zip (laplacian_values ws id0 id1 u) (laplacian_values ws id0 id1 v))"
    unfolding laplacian_values_eq map2_same
    by (simp add: vscale_vsub_vadd split_def)
  finally show ?thesis .
qed

lemma laplacian_values_scale:
  assumes "list_all (\<lambda>i. i < length u) id0" and "list_all (\<lambda>i. i < length u) id1"
  shows "laplacian_values ws id0 id1 (map (vscale k) u)
       = map (vscale k) (laplacian_values ws id0 id1 u)"
proof -
  have "laplacian_values ws id0 id1 (map (vscale k) u)
      = map (\<lambda>(c, i, j). vscale c (vsub (vscale k (u ! i)) (vscale k (u ! j))))
          (zip ws (zip id0 id1))"
    by (rule laplacian_values_cong [OF assms(1,2)]) simp
  also have "\<dots> = map (vscale k) (laplacian_values ws id0 id1 u)"
    unfolding laplacian_values_eq
    by (simp add: vscale_vsub_vscale split_def)
  finally show ?thesis .
qed

lemma laplacian_values_zero:
  assumes "list_all (\<lambda>i. i < n) id0" and "list_all (\<lambda>i. i < n) id1"
  shows "laplacian_values ws id0 id1 (replicate n (0, 0, 0))
       = map (\<lambda>z. (0, 0, 0)) (zip ws (zip id0 id1))"
proof -
  have "laplacian_values ws id0 id1 (replicate n (0, 0, 0))
      = map (\<lambda>(c, i, j). vscale c (0, 0, 0)) (zip ws (zip id0 id1))"
    by (rule laplacian_values_cong [OF assms(1,2)]) simp
  then show ?thesis
    by (simp add: split_def)
qed

lemma scatter_fold_zero:
  "fold (\<lambda>(i, s) acc. acc[i := acc ! i + s]) (zip idx (map (\<lambda>z. 0) zs))
       (replicate n (0::real))
     = replicate n 0"
proof (induction idx arbitrary: zs)
  case Nil
  then show ?case by simp
next
  case (Cons i idx)
  have upd: "(replicate n (0::real))[i := replicate n 0 ! i + 0] = replicate n 0"
    by (cases "i < n") (simp_all add: list_update_beyond not_less list_update_same_conv)
  show ?case
  proof (cases zs)
    case Nil
    then show ?thesis by simp
  next
    case (Cons z zs')
    then show ?thesis
      using Cons.IH [of zs'] upd by simp
  qed
qed

lemma map_coordinates_vadd:
  "map fst (map (\<lambda>(x, y). vadd x y) (zip A B))
     = map (\<lambda>(x, y). x + y) (zip (map fst A) (map fst B))"
  "map (\<lambda>v. fst (snd v)) (map (\<lambda>(x, y). vadd x y) (zip A B))
     = map (\<lambda>(x, y). x + y) (zip (map (\<lambda>v. fst (snd v)) A) (map (\<lambda>v. fst (snd v)) B))"
  "map (\<lambda>v. snd (snd v)) (map (\<lambda>(x, y). vadd x y) (zip A B))
     = map (\<lambda>(x, y). x + y) (zip (map (\<lambda>v. snd (snd v)) A) (map (\<lambda>v. snd (snd v)) B))"
  by (simp_all add: zip_map_map vadd_components split_def)

lemma map_coordinates_vscale:
  "map fst (map (vscale k) A) = map ((*) k) (map fst A)"
  "map (\<lambda>v. fst (snd v)) (map (vscale k) A) = map ((*) k) (map (\<lambda>v. fst (snd v)) A)"
  "map (\<lambda>v. snd (snd v)) (map (vscale k) A) = map ((*) k) (map (\<lambda>v. snd (snd v)) A)"
  by (simp_all add: vscale_components)

lemma zip3_vadd:
  fixes X1 Y1 Z1 X2 Y2 Z2 :: "real list"
  assumes "length X1 = n" "length Y1 = n" "length Z1 = n"
    and "length X2 = n" "length Y2 = n" "length Z2 = n"
  shows "zip (map (\<lambda>(x, y). x + y) (zip X1 X2))
           (zip (map (\<lambda>(x, y). x + y) (zip Y1 Y2)) (map (\<lambda>(x, y). x + y) (zip Z1 Z2)))
       = map (\<lambda>(x, y). vadd x y) (zip (zip X1 (zip Y1 Z1)) (zip X2 (zip Y2 Z2)))"
  using assms by (intro nth_equalityI) simp_all

lemma zip3_vscale:
  fixes X Y Z :: "real list"
  assumes "length X = n" "length Y = n" "length Z = n"
  shows "zip (map ((*) k) X) (zip (map ((*) k) Y) (map ((*) k) Z))
       = map (vscale k) (zip X (zip Y Z))"
  using assms by (intro nth_equalityI) simp_all

lemma zip3_zero:
  "zip (replicate n 0) (zip (replicate n 0) (replicate n 0)) = replicate n (0, 0, 0)"
  by (simp add: zip_replicate)

lemma laplacian_closure_linear:
  assumes ok0: "list_all (\<lambda>i. i < m) id0" and ok1: "list_all (\<lambda>i. i < m) id1"
    and okn: "list_all (\<lambda>i. i < n) id1"
    and lu: "length u = m" and lv: "length v = m"
  shows "\<exists>Lu Lv. laplacian_closure n ws id0 id1 u = Inr Lu
           \<and> laplacian_closure n ws id0 id1 v = Inr Lv
           \<and> length Lu = n \<and> length Lv = n
           \<and> laplacian_closure n ws id0 id1 (map (\<lambda>(x, y). vadd x y) (zip u v))
               = Inr (map (\<lambda>(x, y). vadd x y) (zip Lu Lv))
           \<and> laplacian_closure n ws id0 id1 (map (vscale k) u) = Inr (map (vscale k) Lu)
           \<and> laplacian_closure n ws id0 id1 (replicate m (0, 0, 0)) = Inr (replicate n (0, 0, 0))"
proof -
  define S where "S src = fold (\<lambda>(i, s) acc. acc[i := acc ! i + s]) (zip id1 src)
      (replicate n (0::real))" for src
  define V where "V t = laplacian_values ws id0 id1 t" for t
  define L where "L t = zip (S (map fst (V t)))
      (zip (S (map (\<lambda>v. fst (snd v)) (V t))) (S (map (\<lambda>v. snd (snd v)) (V t))))" for t
  have val: "laplacian_closure n ws id0 id1 t = Inr (L t)" if "length t = m" for t
    using that ok0 ok1 okn
    by (simp add: laplacian_closure_def scatter_add_def S_def V_def L_def Let_def)
  have Slen: "length (S src) = n" for src
    by (simp add: S_def scatter_fold_length)
  have Sadd: "S (map (\<lambda>(x, y). x + y) (zip s1 s2)) = map (\<lambda>(x, y). x + y) (zip (S s1) (S s2))"
    if "length s1 = length s2" for s1 s2
    using scatter_fold_add [OF that, of "replicate n 0" "replicate n 0" id1]
    by (simp add: S_def zip_replicate)
  have Sscale: "S (map ((*) k) s) = map ((*) k) (S s)" for s
    using scatter_fold_scale [of id1 k s "replicate n 0"]
    by (simp add: S_def)
  have Szero: "S (map (\<lambda>z. 0) zs) = replicate n 0" for zs :: "(real \<times> nat \<times> nat) list"
    by (simp add: S_def scatter_fold_zero)
  have Vadd: "V (map (\<lambda>(x, y). vadd x y) (zip u v))
      = map (\<lambda>(x, y). vadd x y) (zip (V u) (V v))"
    unfolding V_def using ok0 ok1 lu lv by (intro laplacian_values_add) simp_all
  have Vscale: "V (map (vscale k) u) = map (vscale k) (V u)"
    unfolding V_def using ok0 ok1 lu by (intro laplacian_values_scale) simp_all
  have Vzero: "V (replicate m (0, 0, 0)) = map (\<lambda>z. (0, 0, 0)) (zip ws (zip id0 id1))"
    unfolding V_def using ok0 ok1 by (rule laplacian_values_zero)
  have Vlen: "length (V u) = length (V v)"
    by (simp add: V_def laplacian_values_eq)
  have add: "L (map (\<lambda>(x, y). vadd x y) (zip u v)) = map (\<lambda>(x, y). vadd x y) (zip (L u) (L v))"
    unfolding L_def Vadd map_coordinates_vadd
    using Vlen by (simp add: Sadd zip3_vadd [where n = n] Slen)
  have scale: "L (map (vscale k) u) = map (vscale k) (L u)"
    unfolding L_def Vscale map_coordinates_vscale Sscale
    by (rule zip3_vscale [where n = n]) (simp_all add: Slen)
  have zero: "L (replicate m (0, 0, 0)) = replicate n (0, 0, 0)"
    unfolding L_def Vzero by (simp add: Szero zip3_zero comp_def)
  have "length (L u) = n" "length (L v) = n"
    by (simp_all add: L_def Slen)
  then show ?thesis
    using val [OF lu] val [OF lv] val [of "map (\<lambda>(x, y). vadd x y) (zip u v)"]
      val [of "map (vscale k) u"] val [of "replicate m (0, 0, 0)"] add scale zero lu lv
    by simp
qed

lemma vertices_id_in_range:
  assumes "vertices faces point = Inr vs"
  shows "list_all (\<lambda>i. i < length point) (concat (map (\<lambda>(i, j, k). [j, k, i]) faces))"
    and "list_all (\<lambda>i. i < length point) (concat (map (\<lambda>(i, j, k). [k, i, j]) faces))"
  using assms by (auto simp: vertices_def list_all_iff split: if_splits)

text \<open>
  C8. For a base surface whose triangulation indexes inside it, \<^verbatim>\<open>laplacian\<close> returns an
  operator; on tangent vectors of the shape of the base surface the operator returns, its
  value at \<open>u + v\<close> is the sum of its values at \<open>u\<close> and at \<open>v\<close>, its value at \<open>c * u\<close> is
  \<open>c\<close> times its value at \<open>u\<close>, and its value at the zero field is the zero field.
\<close>

theorem laplacian_linear:
  assumes v: "vertices faces point = Inr vs"
    and lu: "length u = length point" and lv: "length v = length point"
  shows "\<exists>L Lu Lv. laplacian faces point = Inr L
           \<and> L u = Inr Lu \<and> L v = Inr Lv
           \<and> length Lu = length point \<and> length Lv = length point
           \<and> L (map (\<lambda>(x, y). vadd x y) (zip u v)) = Inr (map (\<lambda>(x, y). vadd x y) (zip Lu Lv))
           \<and> L (map (vscale c) u) = Inr (map (vscale c) Lu)
           \<and> L (replicate (length point) (0, 0, 0)) = Inr (replicate (length point) (0, 0, 0))"
proof -
  let ?L = "laplacian_closure (length point) (concat (map cot_weights vs))
      (concat (map (\<lambda>(i, j, k). [j, k, i]) faces)) (concat (map (\<lambda>(i, j, k). [k, i, j]) faces))"
  have "laplacian faces point = Inr ?L"
    using v by (simp add: laplacian_def)
  moreover have "\<exists>Lu Lv. ?L u = Inr Lu \<and> ?L v = Inr Lv
           \<and> length Lu = length point \<and> length Lv = length point
           \<and> ?L (map (\<lambda>(x, y). vadd x y) (zip u v)) = Inr (map (\<lambda>(x, y). vadd x y) (zip Lu Lv))
           \<and> ?L (map (vscale c) u) = Inr (map (vscale c) Lu)
           \<and> ?L (replicate (length point) (0, 0, 0)) = Inr (replicate (length point) (0, 0, 0))"
    by (rule laplacian_closure_linear
        [OF vertices_id_in_range(1) [OF v] vertices_id_in_range(2) [OF v]
          vertices_id_in_range(2) [OF v] lu lv])
  ultimately show ?thesis
    by blast
qed

lemma cot_weights_345: "cot_weights ((0, 0, 0), (3, 0, 0), (0, 4, 0)) = [0, 3 / 2, 8 / 3]"
  by (simp add: cot_weights_def Let_def laplacian_area_eq triangle_area_345 linalg_norm_square)

lemma vertices_345:
  "vertices [(0, 1, 2)] [(0, 0, 0), (3, 0, 0), (0, 4, 0)]
     = Inr [((0, 0, 0), (3, 0, 0), (0, 4, 0))]"
  by (simp add: vertices_def)

lemma laplacian_345:
  "laplacian [(0, 1, 2)] [(0, 0, 0), (3, 0, 0), (0, 4, 0)]
     = Inr (laplacian_closure 3 [0, 3 / 2, 8 / 3] [1, 2, 0] [2, 0, 1])"
  unfolding laplacian_def vertices_345 by (simp add: cot_weights_345 numeral_3_eq_3)

lemma laplacian_closure_345:
  "laplacian_closure 3 [0, 3 / 2, 8 / 3] [1, 2, 0] [2, 0, 1] [(a, 0, 0), (0, b, 0), (0, 0, 0)]
     = Inr [(- 3 * a / 2, 0, 0), (8 * a / 3, - 8 * b / 3, 0), (0, 0, 0)]"
  by (simp add: laplacian_closure_def laplacian_values_def scatter_add_def Let_def
      numeral_3_eq_3)

theorem laplacian_linear_witness:
  "\<exists>L. laplacian [(0, 1, 2)] [(0, 0, 0), (3, 0, 0), (0, 4, 0)] = Inr L
     \<and> L [(1, 0, 0), (0, 0, 0), (0, 0, 0)] = Inr [(- 3 / 2, 0, 0), (8 / 3, 0, 0), (0, 0, 0)]
     \<and> L [(0, 0, 0), (0, 3, 0), (0, 0, 0)] = Inr [(0, 0, 0), (0, - 8, 0), (0, 0, 0)]
     \<and> L [(1, 0, 0), (0, 3, 0), (0, 0, 0)] = Inr [(- 3 / 2, 0, 0), (8 / 3, - 8, 0), (0, 0, 0)]
     \<and> L [(5, 0, 0), (0, 0, 0), (0, 0, 0)] = Inr [(- 15 / 2, 0, 0), (40 / 3, 0, 0), (0, 0, 0)]
     \<and> L [(0, 0, 0), (0, 0, 0), (0, 0, 0)] = Inr [(0, 0, 0), (0, 0, 0), (0, 0, 0)]"
  using laplacian_linear [OF vertices_345, of "[(1, 0, 0), (0, 0, 0), (0, 0, 0)]"
      "[(0, 0, 0), (0, 3, 0), (0, 0, 0)]" 5]
    laplacian_closure_345 [of 1 0] laplacian_closure_345 [of 0 3]
    laplacian_closure_345 [of 1 3] laplacian_closure_345 [of 5 0]
    laplacian_closure_345 [of 0 0]
  unfolding laplacian_345 by simp

section \<open>Symmetry of the inner product\<close>

lemma bindE_commute:
  assumes "\<And>e. x = Inl e \<Longrightarrow> e = c" and "\<And>e. y = Inl e \<Longrightarrow> e = c"
  shows "bindE x (\<lambda>a. bindE y (\<lambda>b. f a b)) = bindE y (\<lambda>b. bindE x (\<lambda>a. f a b))"
  using assms by (cases x; cases y) auto

lemma dot_commute: "dot x y = dot y x"
  by (cases x, cases y) (simp add: algebra_simps)

lemma map2_dot_commute:
  "map (\<lambda>(x, y). dot x y) (zip v u) = map (\<lambda>(x, y). dot x y) (zip u v)"
proof (induction v arbitrary: u)
  case Nil
  then show ?case by simp
next
  case (Cons a v)
  then show ?case by (cases u) (simp_all add: dot_commute)
qed

lemma broadcast2_dot_commute:
  "bindE (broadcast2 v u) (\<lambda>ab. F (map (\<lambda>(x, y). dot x y) ab))
     = bindE (broadcast2 u v) (\<lambda>ab. F (map (\<lambda>(x, y). dot x y) ab))"
  by (auto simp: broadcast2_def map2_dot_commute comp_def dot_commute)

lemma inner_product_a0_sym: "inner_product_a0 m u v va = inner_product_a0 m v u va"
  unfolding inner_product_a0_def by (rule broadcast2_dot_commute)

lemma map_zip3_swap:
  assumes "\<And>a b c. f a b c = g b a c"
  shows "map (\<lambda>((a, b), c). f a b c) (zip (zip A B) C)
       = map (\<lambda>((b, a), c). g b a c) (zip (zip B A) C)"
proof (induction A arbitrary: B C)
  case Nil
  then show ?case by simp
next
  case (Cons a A)
  then show ?case
    by (cases B; cases C) (simp_all add: assms)
qed

lemma trace22_commute: "trace22 (matmul_22_22 X Y) = trace22 (matmul_22_22 Y X)"
  by (cases X; cases Y) (simp add: split_paired_all algebra_simps)

lemma inner_product_a1_sym: "inner_product_a1 m A B ar = inner_product_a1 m B A ar"
  unfolding inner_product_a1_def
  by (subst map_zip3_swap [where g = "\<lambda>b a c. trace22 (matmul_22_22 b a) * c"])
    (simp_all add: trace22_commute)

lemma inner_product_b1_sym: "inner_product_b1 m A B ar = inner_product_b1 m B A ar"
  unfolding inner_product_b1_def
  by (subst map_zip3_swap [where g = "\<lambda>b a c. trace22 b * trace22 a * c"])
    (simp_all add: algebra_simps)

lemma vertices_error: "vertices faces p = Inl e \<Longrightarrow> e = IndexError"
  by (simp add: vertices_def split: if_splits)

lemma normals_error: "normals faces p = Inl e \<Longrightarrow> e = IndexError"
  by (cases "vertices faces p") (auto simp: normals_def dest: vertices_error)

lemma surface_one_forms_error: "surface_one_forms faces p = Inl e \<Longrightarrow> e = IndexError"
  by (cases "vertices faces p") (auto simp: surface_one_forms_def dest: vertices_error)

lemma add_points_error: "add_points p q = Inl e \<Longrightarrow> e = ValueError"
  by (auto simp: add_points_def broadcast2_def split: if_splits)

lemma scatter_add_error: "scatter_add inp idx src = Inl e \<Longrightarrow> e = IndexError"
  by (simp add: scatter_add_def split: if_splits)

lemma laplacian_closure_error: "laplacian_closure n ws id0 id1 t = Inl e \<Longrightarrow> e = IndexError"
  by (auto simp: laplacian_closure_def Let_def bindE_def scatter_add_def
      split: if_splits sum.splits)

lemma inner_product_c1_sym:
  "inner_product_c1 m faces pa pb nbp ar = inner_product_c1 m faces pb pa nbp ar"
proof -
  have "map (\<lambda>((x, y), ar). dot x y * ar) (zip (zip A B) ar)
      = map (\<lambda>((x, y), ar). dot x y * ar) (zip (zip B A) ar)" for A B
    by (rule map_zip3_swap) (simp add: dot_commute)
  then show ?thesis
    unfolding inner_product_c1_def Let_def
    by (subst bindE_commute [where c = IndexError]) (auto dest: normals_error)
qed

lemma trace33_sym:
  assumes "snd (fst G) = fst (snd G)"
  shows "trace33 (matmul_32_23 X (matmul_22_23 G (transpose32 Y)))
       = trace33 (matmul_32_23 Y (matmul_22_23 G (transpose32 X)))"
  using assms by (cases X; cases Y; cases G) (simp add: split_paired_all algebra_simps)

lemma d1_face_sym:
  "snd (fst G) = fst (snd G) \<Longrightarrow> d1_face A B P G = d1_face B A P G"
  unfolding d1_face_def Let_def by (rule trace33_sym)

lemma map_zip_tail_swap:
  assumes "\<And>a b r. r \<in> set R \<Longrightarrow> f a b r = g b a r"
  shows "map (\<lambda>(a, b, r). f a b r) (zip A (zip B R))
       = map (\<lambda>(b, a, r). g b a r) (zip B (zip A R))"
  using assms
proof (induction A arbitrary: B R)
  case Nil
  then show ?case by simp
next
  case (Cons a A)
  then show ?case
    by (cases B; cases R) simp_all
qed

lemma inner_product_d1_sym:
  assumes "\<forall>G \<in> set ginv. snd (fst G) = fst (snd G)"
  shows "inner_product_d1 m A B P ar ginv = inner_product_d1 m B A P ar ginv"
proof -
  have "map (\<lambda>(ofa, ofb, r). case r of (ofbp, ar, G) \<Rightarrow> d1_face ofa ofb ofbp G * ar)
          (zip A (zip B (zip P (zip ar ginv))))
      = map (\<lambda>(ofb, ofa, r). case r of (ofbp, ar, G) \<Rightarrow> d1_face ofb ofa ofbp G * ar)
          (zip B (zip A (zip P (zip ar ginv))))"
  proof (rule map_zip_tail_swap)
    fix a b r assume "r \<in> set (zip P (zip ar ginv))"
    then obtain ofbp x G where r: "r = (ofbp, x, G)" and "G \<in> set ginv"
      by (metis prod_cases3 set_zip_rightD)
    then show "(case r of (ofbp, ar, G) \<Rightarrow> d1_face a b ofbp G * ar)
        = (case r of (ofbp, ar, G) \<Rightarrow> d1_face b a ofbp G * ar)"
      using assms by (simp add: d1_face_sym)
  qed
  then show ?thesis
    by (simp add: inner_product_d1_def)
qed

lemma linalg_inv_sym:
  "linalg_inv G = Inr H \<Longrightarrow> snd (fst G) = fst (snd G) \<Longrightarrow> snd (fst H) = fst (snd H)"
  by (cases G) (auto simp: split_paired_all split: if_splits)

lemma mapE_linalg_inv_sym:
  "mapE linalg_inv gs = Inr hs \<Longrightarrow> \<forall>G \<in> set gs. snd (fst G) = fst (snd G)
     \<Longrightarrow> \<forall>H \<in> set hs. snd (fst H) = fst (snd H)"
proof (induction gs arbitrary: hs)
  case Nil
  then show ?case by simp
next
  case (Cons g gs)
  from Cons.prems(1) obtain h hs' where h: "linalg_inv g = Inr h" "mapE linalg_inv gs = Inr hs'"
    "hs = h # hs'"
    by (auto simp: bindE_def split: sum.splits)
  then show ?case
    using Cons.IH [of hs'] Cons.prems(2) linalg_inv_sym [of g h] by simp
qed

lemma metric_matrices_sym:
  "\<forall>G \<in> set (surface_metric_matrices_from_one_forms ofs). snd (fst G) = fst (snd G)"
  by (auto simp: surface_metric_matrices_from_one_forms_def split_paired_all algebra_simps)

lemma metric_terms_sym:
  assumes "\<forall>G \<in> set ginv. snd (fst G) = fst (snd G)"
  shows "metric_terms m ofa ofb ofbp g ar ginv = metric_terms m ofb ofa ofbp g ar ginv"
  unfolding metric_terms_def Let_def inner_product_d1_sym [OF assms, of m ofa ofb]
  by (simp add: inner_product_a1_sym [of m "map (\<lambda>(gi, dg). matmul_22_22 gi dg)
        (zip ginv (map (\<lambda>(ofa, g). sub22 (matmul_23_32 ofa (transpose23 ofa)) g) (zip ofa g)))"]
      inner_product_b1_sym [of m "map (\<lambda>(gi, dg). matmul_22_22 gi dg)
        (zip ginv (map (\<lambda>(ofa, g). sub22 (matmul_23_32 ofa (transpose23 ofa)) g) (zip ofa g)))"])

lemma bindE_commute_sym:
  assumes "\<And>e. x = Inl e \<Longrightarrow> e = c" and "\<And>e. y = Inl e \<Longrightarrow> e = c"
    and "\<And>a b. f a b = g b a"
  shows "bindE x (\<lambda>a. bindE y (\<lambda>b. f a b)) = bindE y (\<lambda>b. bindE x (\<lambda>a. g b a))"
  using assms by (cases x; cases y) auto

lemma laplacian_operator_error:
  "laplacian faces p = Inr L \<Longrightarrow> L t = Inl e \<Longrightarrow> e = IndexError"
  by (cases "vertices faces p") (auto simp: laplacian_def Let_def dest: laplacian_closure_error)

lemma inner_product_a2_sym:
  "inner_product_a2 m faces u v p va = inner_product_a2 m faces v u p va"
proof (cases "laplacian faces p")
  case (Inl e)
  then show ?thesis by (simp add: inner_product_a2_def)
next
  case (Inr L)
  have eq: "map (\<lambda>((x, y), ar). dot x y / ar) (zip (zip A B) va)
      = map (\<lambda>((x, y), ar). dot x y / ar) (zip (zip B A) va)" for A B
    by (rule map_zip3_swap) (simp add: dot_commute)
  show ?thesis
    unfolding inner_product_a2_def Inr bindE_Inr
  proof (rule bindE_commute_sym [where c = IndexError])
    show "L u = Inl e \<Longrightarrow> e = IndexError" for e
      by (rule laplacian_operator_error [OF Inr])
    show "L v = Inl e \<Longrightarrow> e = IndexError" for e
      by (rule laplacian_operator_error [OF Inr])
    show "(if list_ex (\<lambda>ar. ar = 0) va then Inl NonFinite
           else Inr (a2 m * sum_list (map (\<lambda>((x, y), ar). dot x y / ar) (zip (zip a b) va))))
        = (if list_ex (\<lambda>ar. ar = 0) va then Inl NonFinite
           else Inr (a2 m * sum_list (map (\<lambda>((x, y), ar). dot x y / ar) (zip (zip b a) va))))"
      for a b
      by (simp only: eq [of a b])
  qed
qed

lemma vertex_terms_sym: "vertex_terms m faces u v p = vertex_terms m faces v u p"
  unfolding vertex_terms_def
  by (simp add: inner_product_a0_sym [of m u v] inner_product_a2_sym [of m faces u v]
      cong: if_cong)

lemma metric_block_sym:
  "bindE (mapE linalg_inv (surface_metric_matrices_from_one_forms ofbp)) (\<lambda>ginv_bp.
     bindE (surface_one_forms faces pa) (\<lambda>one_forms_a.
     bindE (surface_one_forms faces pb) (\<lambda>one_forms_b.
       Inr (metric_terms m one_forms_a one_forms_b ofbp g ar ginv_bp))))
   = bindE (mapE linalg_inv (surface_metric_matrices_from_one_forms ofbp)) (\<lambda>ginv_bp.
     bindE (surface_one_forms faces pb) (\<lambda>one_forms_b.
     bindE (surface_one_forms faces pa) (\<lambda>one_forms_a.
       Inr (metric_terms m one_forms_b one_forms_a ofbp g ar ginv_bp))))"
proof (cases "mapE linalg_inv (surface_metric_matrices_from_one_forms ofbp)")
  case (Inl e)
  then show ?thesis by simp
next
  case (Inr ginv)
  have sym: "\<forall>G \<in> set ginv. snd (fst G) = fst (snd G)"
    by (rule mapE_linalg_inv_sym [OF Inr metric_matrices_sym])
  show ?thesis
    unfolding Inr bindE_Inr
  proof (rule bindE_commute_sym [where c = IndexError])
    show "Inr (metric_terms m a b ofbp g ar ginv) = Inr (metric_terms m b a ofbp g ar ginv)"
      for a b
      by (simp only: metric_terms_sym [OF sym, of m a b])
  qed (auto dest: surface_one_forms_error)
qed

lemma face_terms_sym: "face_terms m faces u v p = face_terms m faces v u p"
proof (cases "surface_one_forms faces p")
  case (Inl e)
  then show ?thesis by (simp add: face_terms_def)
next
  case (Inr ofbp)
  show ?thesis
    unfolding face_terms_def Inr bindE_Inr Let_def
    by (simp add: bindE_commute_sym [where c = ValueError and x = "add_points p u"
          and y = "add_points p v"] add_points_error
        metric_block_sym [of ofbp faces _ _ m] inner_product_c1_sym [of m faces]
        cong: if_cong)
qed

text \<open>
  C5. \<^verbatim>\<open>inner_product\<close> gives the same result when the two tangent vectors are
  exchanged, for all weights, tangent vectors, base points and triangulations, also where
  it fails.
\<close>

theorem inner_product_symmetric:
  "inner_product m faces tangent_vec_a tangent_vec_b base_point
     = inner_product m faces tangent_vec_b tangent_vec_a base_point"
  unfolding inner_product_def
    vertex_terms_sym [of m faces tangent_vec_a tangent_vec_b]
    face_terms_sym [of m faces tangent_vec_a tangent_vec_b]
  by (rule refl)

lemma vertex_areas_345:
  "vertex_areas [(0, 1, 2)] [(0, 0, 0), (3, 0, 0), (0, 4, 0)] = Inr [4, 4, 4]"
  unfolding vertex_areas_def triangle_areas_def vertices_345
  by (simp add: triangle_area_345 scatter_add_def numeral_3_eq_3)

lemma inner_product_a2_345:
  "inner_product_a2 m [(0, 1, 2)] [(a, 0, 0), (0, b, 0), (0, 0, 0)]
     [(c, 0, 0), (0, d, 0), (0, 0, 0)] [(0, 0, 0), (3, 0, 0), (0, 4, 0)] [4, 4, 4]
     = Inr (a2 m * ((- 3 * a / 2) * (- 3 * c / 2) / 4
                    + ((8 * a / 3) * (8 * c / 3) + (- 8 * b / 3) * (- 8 * d / 3)) / 4))"
  unfolding inner_product_a2_def laplacian_345 bindE_Inr laplacian_closure_345
  by (simp add: algebra_simps)

lemma face_terms_345:
  "face_terms \<lparr>a0 = 1, a1 = 1, b1 = 1, c1 = 1, d1 = 1, a2 = 1\<rparr> [(0, 1, 2)]
     [(1, 0, 0), (0, 2, 0), (0, 0, 0)] [(1, 0, 0), (0, 1, 0), (0, 0, 0)]
     [(0, 0, 0), (3, 0, 0), (0, 4, 0)] = Inr (4561 / 1728, 385 / 1728, 18, 77 / 6)"
  unfolding face_terms_def surface_one_forms_def normals_def inner_product_c1_def
  by (simp add: vertices_def one_form_def surface_metric_matrices_from_one_forms_def
      add_points_def broadcast2_def sqrt_144 normals_def normal_def metric_terms_def Let_def
      inner_product_a1_def inner_product_b1_def inner_product_d1_def d1_face_def
      d1_component_def)

lemma vertex_terms_345_all:
  "vertex_terms \<lparr>a0 = 1, a1 = 1, b1 = 1, c1 = 1, d1 = 1, a2 = 1\<rparr> [(0, 1, 2)]
     [(a, 0, 0), (0, b, 0), (0, 0, 0)] [(c, 0, 0), (0, d, 0), (0, 0, 0)]
     [(0, 0, 0), (3, 0, 0), (0, 4, 0)]
     = Inr (4 * (a * c) + 4 * (b * d),
            (- 3 * a / 2) * (- 3 * c / 2) / 4
              + ((8 * a / 3) * (8 * c / 3) + (- 8 * b / 3) * (- 8 * d / 3)) / 4)"
  unfolding vertex_terms_def vertex_areas_345 bindE_Inr inner_product_a2_345
  by (simp add: inner_product_a0_def broadcast2_def)

theorem inner_product_symmetric_witness:
  "inner_product \<lparr>a0 = 1, a1 = 1, b1 = 1, c1 = 1, d1 = 1, a2 = 1\<rparr> [(0, 1, 2)]
     [(1, 0, 0), (0, 2, 0), (0, 0, 0)] [(1, 0, 0), (0, 1, 0), (0, 0, 0)]
     [(0, 0, 0), (3, 0, 0), (0, 4, 0)] = Inr (44575 / 864)
   \<and> inner_product \<lparr>a0 = 1, a1 = 1, b1 = 1, c1 = 1, d1 = 1, a2 = 1\<rparr> [(0, 1, 2)]
     [(1, 0, 0), (0, 1, 0), (0, 0, 0)] [(1, 0, 0), (0, 2, 0), (0, 0, 0)]
     [(0, 0, 0), (3, 0, 0), (0, 4, 0)] = Inr (44575 / 864)"
proof -
  have e: "inner_product \<lparr>a0 = 1, a1 = 1, b1 = 1, c1 = 1, d1 = 1, a2 = 1\<rparr> [(0, 1, 2)]
     [(1, 0, 0), (0, 2, 0), (0, 0, 0)] [(1, 0, 0), (0, 1, 0), (0, 0, 0)]
     [(0, 0, 0), (3, 0, 0), (0, 4, 0)] = Inr (44575 / 864)"
    unfolding inner_product_def vertex_terms_345_all face_terms_345 bindE_Inr by simp
  from inner_product_symmetric [of "\<lparr>a0 = 1, a1 = 1, b1 = 1, c1 = 1, d1 = 1, a2 = 1\<rparr>"
      "[(0, 1, 2)]" "[(1, 0, 0), (0, 2, 0), (0, 0, 0)]" "[(1, 0, 0), (0, 1, 0), (0, 0, 0)]"
      "[(0, 0, 0), (3, 0, 0), (0, 4, 0)]"]
  show ?thesis
    unfolding e by simp
qed

section \<open>Homogeneity of the inner product\<close>

lemma laplacian_closure_scale:
  "laplacian_closure n ws id0 id1 (map (vscale k) u)
     = (case laplacian_closure n ws id0 id1 u of Inl e \<Rightarrow> Inl e
        | Inr Lu \<Rightarrow> Inr (map (vscale k) Lu))"
proof (cases "list_all (\<lambda>i. i < length u) id0 \<and> list_all (\<lambda>i. i < length u) id1")
  case False
  then show ?thesis
    by (auto simp: laplacian_closure_def)
next
  case True
  show ?thesis
  proof (cases "list_all (\<lambda>i. i < n) id1")
    case False
    then show ?thesis
      using True by (simp add: laplacian_closure_def scatter_add_def Let_def)
  next
    case okn: True
    from laplacian_closure_linear [of "length u" id0 id1 n u u ws k] True okn
    show ?thesis by auto
  qed
qed

lemma dot_vscale_div: "dot (vscale k x) y / r = k * (dot x y / r)"
  by (cases x, cases y) (simp add: algebra_simps add_divide_distrib)

lemma sum_list_scale_zip3:
  "sum_list (map (\<lambda>((x, y), ar). dot x y / ar) (zip (zip (map (vscale k) A) B) R))
     = k * sum_list (map (\<lambda>((x, y), ar). dot x y / ar) (zip (zip A B) R))"
proof (induction A arbitrary: B R)
  case Nil
  then show ?case by simp
next
  case (Cons a A)
  then show ?case
    by (cases B; cases R) (simp_all add: dot_vscale_div algebra_simps)
qed

lemma inner_product_a2_scale:
  "inner_product_a2 m faces (map (vscale k) u) v p va
     = (case inner_product_a2 m faces u v p va of Inl e \<Rightarrow> Inl e | Inr x \<Rightarrow> Inr (k * x))"
proof (cases "vertices faces p")
  case (Inl e)
  then show ?thesis
    by (simp add: inner_product_a2_def laplacian_def)
next
  case (Inr vs)
  show ?thesis
    unfolding inner_product_a2_def laplacian_def Let_def Inr bindE_Inr laplacian_closure_scale
    by (auto simp: bindE_def sum_list_scale_zip3 split: sum.splits)
qed

lemma broadcast2_map_left:
  "broadcast2 (map f xs) ys = map_sum id (map (\<lambda>(x, y). (f x, y))) (broadcast2 xs ys)"
  by (auto simp: broadcast2_def zip_map1 hd_map length_Suc_conv)

lemma broadcast2_map_right:
  "broadcast2 xs (map g ys) = map_sum id (map (\<lambda>(x, y). (x, g y))) (broadcast2 xs ys)"
  by (auto simp: broadcast2_def zip_map2 hd_map length_Suc_conv)

lemma inner_product_a0_scale:
  "inner_product_a0 m (map (vscale k) u) v va
     = (case inner_product_a0 m u v va of Inl e \<Rightarrow> Inl e | Inr x \<Rightarrow> Inr (k * x))"
proof -
  have dots: "map (\<lambda>(x, y). dot x y) (map (\<lambda>(x, y). (vscale k x, y)) ab)
      = map ((*) k) (map (\<lambda>(x, y). dot x y) ab)" for ab
    by (simp add: split_def dot_vscale_left)
  have sums: "sum_list (map ((\<lambda>(ar, e). ar * e) \<circ> (\<lambda>(x, y). (x, k * y))) w)
      = k * sum_list (map (\<lambda>(ar, e). ar * e) w)" for w :: "(real \<times> real) list"
    by (induction w) (auto simp: algebra_simps)
  show ?thesis
  proof (cases "broadcast2 u v")
    case (Inl e)
    then show ?thesis
      by (simp add: inner_product_a0_def broadcast2_map_left)
  next
    case ab: (Inr ab)
    let ?D = "map (\<lambda>(x, y). dot x y) ab"
    let ?F = "\<lambda>w. Inr (a0 m * sum_list (map (\<lambda>(ar, e). ar * e) w)) :: error + real"
    have step: "broadcast2 va (map (\<lambda>(x, y). dot x y) (map (\<lambda>(x, y). (vscale k x, y)) ab))
        = map_sum id (map (\<lambda>(x, y). (x, k * y))) (broadcast2 va ?D)"
      unfolding dots by (rule broadcast2_map_right)
    have L: "inner_product_a0 m (map (vscale k) u) v va
        = bindE (map_sum id (map (\<lambda>(x, y). (x, k * y))) (broadcast2 va ?D)) ?F"
      unfolding inner_product_a0_def broadcast2_map_left ab
      by (simp only: map_sum.simps bindE_Inr step)
    have R: "inner_product_a0 m u v va = bindE (broadcast2 va ?D) ?F"
      unfolding inner_product_a0_def ab by simp
    show ?thesis
      unfolding L R by (cases "broadcast2 va ?D") (simp_all add: sums)
  qed
qed

lemma vertex_terms_scale:
  "vertex_terms m faces (map (vscale k) u) v p
     = (case vertex_terms m faces u v p of Inl e \<Rightarrow> Inl e
        | Inr (x, y) \<Rightarrow> Inr (k * x, k * y))"
proof (cases "vertex_areas faces p")
  case (Inl e)
  then show ?thesis
    by (simp add: vertex_terms_def)
next
  case (Inr va)
  show ?thesis
    unfolding vertex_terms_def Inr bindE_Inr inner_product_a0_scale inner_product_a2_scale
    by (auto simp: bindE_def split: sum.splits)
qed

text \<open>
  C2, as the code has it. When the weights a1, b1 and c1 are not positive,
  \<^verbatim>\<open>inner_product(c * u, v, p)\<close> is \<open>c\<close> times \<^verbatim>\<open>inner_product(u, v, p)\<close>, and fails
  where that fails.
\<close>

theorem inner_product_homogeneous:
  assumes "a1 m \<le> 0" and "b1 m \<le> 0" and "c1 m \<le> 0"
  shows "inner_product m faces (map (vscale c) tangent_vec_a) tangent_vec_b base_point
       = (case inner_product m faces tangent_vec_a tangent_vec_b base_point of
            Inl e \<Rightarrow> Inl e | Inr x \<Rightarrow> Inr (c * x))"
proof -
  have "face_terms m faces t tangent_vec_b base_point = Inr (0, 0, 0, 0)" for t
    using assms by (simp add: face_terms_def not_less [symmetric])
  then show ?thesis
    unfolding inner_product_def vertex_terms_scale
    by (auto simp: bindE_def algebra_simps split: sum.splits)
qed

lemma vertex_terms_345:
  "vertex_terms \<lparr>a0 = 1, a1 = 0, b1 = 0, c1 = 0, d1 = 0, a2 = 1\<rparr> [(0, 1, 2)]
     [(a, 0, 0), (0, b, 0), (0, 0, 0)] [(c, 0, 0), (0, d, 0), (0, 0, 0)]
     [(0, 0, 0), (3, 0, 0), (0, 4, 0)]
     = Inr (4 * (a * c) + 4 * (b * d),
            (- 3 * a / 2) * (- 3 * c / 2) / 4
              + ((8 * a / 3) * (8 * c / 3) + (- 8 * b / 3) * (- 8 * d / 3)) / 4)"
  unfolding vertex_terms_def vertex_areas_345 bindE_Inr inner_product_a2_345
  by (simp add: inner_product_a0_def broadcast2_def)

lemma inner_product_345:
  "inner_product \<lparr>a0 = 1, a1 = 0, b1 = 0, c1 = 0, d1 = 0, a2 = 1\<rparr> [(0, 1, 2)]
     [(a, 0, 0), (0, b, 0), (0, 0, 0)] [(c, 0, 0), (0, d, 0), (0, 0, 0)]
     [(0, 0, 0), (3, 0, 0), (0, 4, 0)]
     = Inr (4 * (a * c) + 4 * (b * d)
            + ((- 3 * a / 2) * (- 3 * c / 2) / 4
              + ((8 * a / 3) * (8 * c / 3) + (- 8 * b / 3) * (- 8 * d / 3)) / 4))"
  unfolding inner_product_def vertex_terms_345 bindE_Inr
  by (simp add: face_terms_def)

theorem inner_product_homogeneous_witness:
  "inner_product \<lparr>a0 = 1, a1 = 0, b1 = 0, c1 = 0, d1 = 0, a2 = 1\<rparr> [(0, 1, 2)]
     (map (vscale 5) [(1, 0, 0), (0, 2, 0), (0, 0, 0)]) [(1, 0, 0), (0, 1, 0), (0, 0, 0)]
     [(0, 0, 0), (3, 0, 0), (0, 4, 0)] = Inr (5 * (859 / 48))
   \<and> inner_product \<lparr>a0 = 1, a1 = 0, b1 = 0, c1 = 0, d1 = 0, a2 = 1\<rparr> [(0, 1, 2)]
     [(1, 0, 0), (0, 2, 0), (0, 0, 0)] [(1, 0, 0), (0, 1, 0), (0, 0, 0)]
     [(0, 0, 0), (3, 0, 0), (0, 4, 0)] = Inr (859 / 48)"
proof -
  have e: "inner_product \<lparr>a0 = 1, a1 = 0, b1 = 0, c1 = 0, d1 = 0, a2 = 1\<rparr> [(0, 1, 2)]
     [(1, 0, 0), (0, 2, 0), (0, 0, 0)] [(1, 0, 0), (0, 1, 0), (0, 0, 0)]
     [(0, 0, 0), (3, 0, 0), (0, 4, 0)] = Inr (859 / 48)"
    unfolding inner_product_345 by simp
  from inner_product_homogeneous [of "\<lparr>a0 = 1, a1 = 0, b1 = 0, c1 = 0, d1 = 0, a2 = 1\<rparr>"
      "[(0, 1, 2)]" 5 "[(1, 0, 0), (0, 2, 0), (0, 0, 0)]" "[(1, 0, 0), (0, 1, 0), (0, 0, 0)]"
      "[(0, 0, 0), (3, 0, 0), (0, 4, 0)]"]
  show ?thesis
    unfolding e by simp
qed

text \<open>
  C2, as stated, fails: the a1 term is computed from the surface metric of
  \<open>base_point + tangent_vec\<close>, which is quadratic in the tangent vector. With a1 = 1 and
  the other weights 0, on the right triangle with legs 1 and the tangent vector \<open>u\<close> that
  moves vertex 1 by one unit along its edge, \<^verbatim>\<open>inner_product(u, u, p)\<close> is 9 and
  \<^verbatim>\<open>inner_product(2 * u, u, p)\<close> is 24.
\<close>

theorem inner_product_not_homogeneous:
  "inner_product \<lparr>a0 = 0, a1 = 1, b1 = 0, c1 = 0, d1 = 0, a2 = 0\<rparr> [(0, 1, 2)]
     (map (vscale 2) [(0, 0, 0), (1, 0, 0), (0, 0, 0)]) [(0, 0, 0), (1, 0, 0), (0, 0, 0)]
     [(0, 0, 0), (1, 0, 0), (0, 1, 0)] = Inr 24
   \<and> inner_product \<lparr>a0 = 0, a1 = 1, b1 = 0, c1 = 0, d1 = 0, a2 = 0\<rparr> [(0, 1, 2)]
     [(0, 0, 0), (1, 0, 0), (0, 0, 0)] [(0, 0, 0), (1, 0, 0), (0, 0, 0)]
     [(0, 0, 0), (1, 0, 0), (0, 1, 0)] = Inr 9
   \<and> (24 :: real) \<noteq> 2 * 9"
  by (simp add: inner_product_def vertex_terms_def face_terms_def surface_one_forms_def
      vertices_def one_form_def add_points_def broadcast2_def
      surface_metric_matrices_from_one_forms_def metric_terms_def inner_product_a1_def)

end
